theory Spec2Isabelle
  imports Main "HOL-Library.Word"
begin

section \<open>Soil quality sensor: the firmware of \<^verbatim>\<open>main.cpp\<close>\<close>

text \<open>
  The firmware runs on an ESP32 with an AXP192 power-management chip. \<^verbatim>\<open>setup()\<close>
  initialises the peripherals and creates two FreeRTOS tasks: \<^verbatim>\<open>MQTTTask\<close> publishes
  one telemetry record and sends the chip to deep sleep, \<^verbatim>\<open>PEKTask\<close> polls a flag set
  by the interrupt handler \<^verbatim>\<open>handlePMUIRQ\<close> and powers the board off on a long press.

  The embedding is state passing. Every call that leaves \<^verbatim>\<open>main.cpp\<close> (Arduino core,
  FreeRTOS, WiFi, PubSubClient, the AXP20X library, ESP-IDF) is recorded as an event in a
  trace; where the call returns a value that the program inspects, the value is an input of
  the environment. A loop that need not end takes fuel.
\<close>

subsection \<open>Decimal output\<close>

text \<open>\<^verbatim>\<open>Serial.print(int)\<close> and the \<^verbatim>\<open>%lu\<close> conversion write a number in decimal.\<close>

definition digit_char :: "nat \<Rightarrow> char" where
  "digit_char d = ''0123456789'' ! (d mod 10)"

function dec :: "nat \<Rightarrow> string" where
  "dec n = (if n < 10 then [digit_char n] else dec (n div 10) @ [digit_char n])"
  by pat_completeness auto
termination
  by (relation "measure (\<lambda>n. n)") auto

declare dec.simps [simp del]

definition show_int :: "int \<Rightarrow> string" where
  "show_int i = (if i < 0 then CHR ''-'' # dec (nat (- i)) else dec (nat i))"

text \<open>The last \<open>p\<close> decimal digits of \<open>n\<close>, with leading zeros.\<close>

primrec frac_digits :: "nat \<Rightarrow> nat \<Rightarrow> string" where
  "frac_digits 0 n = []"
| "frac_digits (Suc p) n = frac_digits p (n div 10) @ [digit_char n]"

subsection \<open>The \<^verbatim>\<open>sprintf\<close> call of \<^verbatim>\<open>MQTTTask\<close>\<close>

text \<open>
  Binary floating point is not modelled. A \<^verbatim>\<open>float\<close> that is printed with \<open>p\<close>
  decimals is represented by the natural number of units of \<open>10\<^sup>-\<^sup>p\<close> that the conversion
  prints: \<open>25.00\<close> with two decimals is \<open>2500\<close>, \<open>4.100\<close> with three decimals is
  \<open>4100\<close>. For \<^verbatim>\<open>random(1000, 4500) / 100.0f\<close> that number is the value \<^verbatim>\<open>random\<close>
  returned. The three printed values of the program are never negative.
\<close>

datatype arg = ArgU nat | ArgF nat

definition fixed :: "nat \<Rightarrow> nat \<Rightarrow> string" where
  "fixed p v = dec (v div 10 ^ p) @ (if p = 0 then [] else CHR ''.'' # frac_digits p v)"

text \<open>A conversion narrower than its minimum field width is padded with spaces on the left.\<close>

definition pad_left :: "nat \<Rightarrow> string \<Rightarrow> string" where
  "pad_left w str = replicate (w - length str) CHR '' '' @ str"

definition is_digit :: "char \<Rightarrow> bool" where
  "is_digit c = (c \<in> set ''0123456789'')"

text \<open>The digits are the character codes 48 to 57.\<close>

definition digit_val :: "char \<Rightarrow> nat" where
  "digit_val c = of_char c - 48"

text \<open>
  The interpreter of the format string reads it from left to right. It knows the two
  conversions the program uses, \<^verbatim>\<open>%lu\<close> and \<^verbatim>\<open>%W.Pf\<close>; any other directive, or an
  argument of the wrong kind, is undefined behaviour in C and \<open>None\<close> here.
\<close>

datatype fmt_state = Text | Width nat | Prec nat nat | Long

fun format :: "fmt_state \<Rightarrow> string \<Rightarrow> arg list \<Rightarrow> string option" where
  "format Text [] args = Some []"
| "format Text (c # cs) args =
     (if c = CHR ''%'' then format (Width 0) cs args
      else map_option ((#) c) (format Text cs args))"
| "format (Width w) (c # cs) args =
     (if is_digit c then format (Width (10 * w + digit_val c)) cs args
      else if c = CHR ''.'' then format (Prec w 0) cs args
      else if c = CHR ''l'' then format Long cs args
      else None)"
| "format (Prec w p) (c # cs) args =
     (if is_digit c then format (Prec w (10 * p + digit_val c)) cs args
      else if c = CHR ''f'' then
        (case args of
           ArgF v # rest \<Rightarrow> map_option ((@) (pad_left w (fixed p v))) (format Text cs rest)
         | _ \<Rightarrow> None)
      else None)"
| "format Long (c # cs) args =
     (if c = CHR ''u'' then
        (case args of
           ArgU n # rest \<Rightarrow> map_option ((@) (dec n)) (format Text cs rest)
         | _ \<Rightarrow> None)
      else None)"
| "format _ [] args = None"

definition sprintf :: "string \<Rightarrow> arg list \<Rightarrow> string option" where
  "sprintf fmt args = format Text fmt args"

type_synonym u32 = "32 word"
type_synonym u64 = "64 word"

definition payload_format :: string where
  "payload_format =
     ''{\"bootCnt\":%lu,\"soilTemperature\":%4.2f,\"soilMoisture\":%5.2f,\"batVoltage\":%4.3f}''"

text \<open>
  \<^verbatim>\<open>sprintf(dataStr, "{...}", (unsigned long)bootCount, soilTemp, soilMoist, batVolt)\<close>:
  \<open>soilTemp\<close> and \<open>soilMoist\<close> in hundredths, \<open>batVolt\<close> in thousandths. The
  result is the string; the buffer of 256 characters that receives it is not modelled.
\<close>

definition dataStr :: "u32 \<Rightarrow> nat \<Rightarrow> nat \<Rightarrow> nat \<Rightarrow> string option" where
  "dataStr bootCount soilTemp soilMoist batVolt =
     sprintf payload_format [ArgU (unat bootCount), ArgF soilTemp, ArgF soilMoist, ArgF batVolt]"

text \<open>
  The payload as the specification writes it, a second definition for comparison:
  \<^verbatim>\<open>{"bootCnt":<uint>,"soilTemperature":<float, 2 decimals>,"soilMoisture":<float, 2 decimals>,"batVoltage":<float, 3 decimals>}\<close>.
\<close>

definition spec_payload :: "nat \<Rightarrow> nat \<Rightarrow> nat \<Rightarrow> nat \<Rightarrow> string" where
  "spec_payload bootCnt soilTemperature soilMoisture batVoltage =
     ''{\"bootCnt\":'' @ dec bootCnt @
     '',\"soilTemperature\":'' @ fixed 2 soilTemperature @
     '',\"soilMoisture\":'' @ fixed 2 soilMoisture @
     '',\"batVoltage\":'' @ fixed 3 batVoltage @ ''}''"

subsection \<open>Events, environment and state\<close>

text \<open>
  One event per call that leaves the file, with the value the call returned where the
  program looks at it. \<open>Call\<close> stands for the configuration calls whose result is
  ignored. The argument of \<open>VTaskDelay\<close> and \<open>Delay\<close> is the number of milliseconds
  written in the source (\<^verbatim>\<open>vTaskDelay(pdMS_TO_TICKS(ms))\<close>, \<^verbatim>\<open>delay(ms)\<close>).
  \<open>WritePekPressed\<close> is a store to the \<^verbatim>\<open>volatile\<close> flag.
\<close>

datatype event =
    Call string
  | SerialPrint string
  | SerialPrintln string
  | AxpBegin int
  | AxpReadIRQ
  | AxpIsPEKLongtPressIRQ bool
  | AxpShutdown
  | AxpClearIRQ
  | AxpGetBattVoltage nat
  | DigitalWrite nat bool
  | DigitalRead nat bool
  | Delay nat
  | VTaskDelay nat
  | WiFiStatus bool
  | MqttConnected bool
  | MqttConnect bool
  | MqttLoop
  | MqttPublish string string bool
  | SemTake bool
  | SemGive
  | Random nat nat nat
  | WritePekPressed bool
  | SleepEnableTimerWakeup u64
  | DeepSleepStart
  | TaskCreate string nat

text \<open>
  The environment answers every call from the history of the run so far, so that any
  sequence of answers can be described. \<open>wifi_connected\<close> is
  \<^verbatim>\<open>WiFi.status() == WL_CONNECTED\<close>; \<open>pmu_irq_pin\<close> is the level read on
  \<^verbatim>\<open>PMU_IRQ_PIN\<close> (\<open>False\<close> for \<^verbatim>\<open>LOW\<close>); \<open>pmu_irq\<close> tells whether a
  falling edge on that pin has run the interrupt handler since the Power Task last polled;
  \<open>batt_voltage\<close> is \<^verbatim>\<open>axp.getBattVoltage() / 1000.0f\<close> in thousandths of a volt;
  \<open>random_source\<close> is the number the generator behind \<^verbatim>\<open>random\<close> draws.

  \<open>shutdown_returns\<close>: \<^verbatim>\<open>axp.shutdown()\<close> belongs to the AXP20X library, whose
  code is not in this repository. It tells the chip to cut the power; the specification
  calls it a non-returning power-off command. Whether control comes back to the caller
  is therefore left to the environment.
\<close>

record env =
  axp_begin :: "event list \<Rightarrow> int"
  axp_isPEKLongtPressIRQ :: "event list \<Rightarrow> bool"
  shutdown_returns :: "event list \<Rightarrow> bool"
  batt_voltage :: "event list \<Rightarrow> nat"
  wifi_connected :: "event list \<Rightarrow> bool"
  wifi_localIP :: "event list \<Rightarrow> string"
  pmu_irq_pin :: "event list \<Rightarrow> bool"
  pmu_irq :: "event list \<Rightarrow> bool"
  mqtt_connected :: "event list \<Rightarrow> bool"
  mqtt_connect :: "event list \<Rightarrow> bool"
  mqtt_state :: "event list \<Rightarrow> int"
  mqtt_publish :: "event list \<Rightarrow> bool"
  xSemaphoreTake :: "event list \<Rightarrow> bool"
  random_source :: "event list \<Rightarrow> nat"

text \<open>
  The global variables of the file. \<open>bootCount\<close> is \<^verbatim>\<open>RTC_DATA_ATTR uint32_t\<close>:
  it lives in RTC memory and survives deep sleep.
\<close>

record state =
  bootCount :: u32
  pekPressed :: bool
  ledState :: bool
  trace :: "event list"

text \<open>
  How a piece of code ends: it returns (\<open>Normal\<close>), it makes a call that does not come
  back (\<open>Stopped\<close>), or the fuel of a loop runs out (\<open>OutOfFuel\<close>).
  \<open>Undefined\<close> is undefined behaviour of \<^verbatim>\<open>sprintf\<close>.
\<close>

datatype stop = DeepSleep | PowerOff | Undefined

datatype result = Normal state | Stopped stop state | OutOfFuel state

fun final :: "result \<Rightarrow> state" where
  "final (Normal s) = s"
| "final (Stopped _ s) = s"
| "final (OutOfFuel s) = s"

definition and_then :: "result \<Rightarrow> (state \<Rightarrow> result) \<Rightarrow> result" where
  "and_then r f = (case r of Normal s \<Rightarrow> f s | _ \<Rightarrow> r)"

definition emit :: "event \<Rightarrow> state \<Rightarrow> state" where
  "emit e s = s\<lparr>trace := trace s @ [e]\<rparr>"

definition emits :: "event list \<Rightarrow> state \<Rightarrow> state" where
  "emits es s = s\<lparr>trace := trace s @ es\<rparr>"

subsection \<open>Constants of the file\<close>

definition LED_PIN :: nat where "LED_PIN = 4"
definition PMU_IRQ_PIN :: nat where "PMU_IRQ_PIN = 35"
definition ssid :: string where "ssid = []"
definition mqttTopicPub :: string where "mqttTopicPub = ''v1/devices/me/telemetry''"

definition SLEEP_DURATION_US :: u64 where
  "SLEEP_DURATION_US = 30 * 1000000"

definition power_on :: state where
  "power_on = \<lparr>bootCount = 1, pekPressed = False, ledState = False, trace = []\<rparr>"

text \<open>
  Waking from deep sleep restarts the program: the ordinary globals get their
  initialisers again, RTC memory keeps \<open>bootCount\<close>. The trace goes on.
\<close>

definition wake :: "state \<Rightarrow> state" where
  "wake s = s\<lparr>pekPressed := False, ledState := False\<rparr>"

subsection \<open>Library calls with a contract\<close>

text \<open>
  \<^verbatim>\<open>random(howsmall, howbig)\<close> is the Arduino core's. Its documented contract: the
  result is \<open>howsmall\<close> when \<open>howsmall \<ge> howbig\<close>, and otherwise lies between
  \<open>howsmall\<close> and \<open>howbig - 1\<close>. Every such result is reached by some
  \<open>random_source\<close>.
\<close>

definition random :: "env \<Rightarrow> nat \<Rightarrow> nat \<Rightarrow> state \<Rightarrow> nat \<times> state" where
  "random env howsmall howbig s =
     (let r = (if howbig \<le> howsmall then howsmall
               else howsmall + random_source env (trace s) mod (howbig - howsmall))
      in (r, emit (Random howsmall howbig r) s))"

definition axp_shutdown :: "env \<Rightarrow> state \<Rightarrow> result" where
  "axp_shutdown env s =
     (if shutdown_returns env (trace s) then Normal (emit AxpShutdown s)
      else Stopped PowerOff (emit AxpShutdown s))"

text \<open>
  \<^verbatim>\<open>esp_deep_sleep_start()\<close> is declared \<^verbatim>\<open>noreturn\<close> by ESP-IDF: the chip wakes
  through a reset.
\<close>

definition esp_deep_sleep_start :: "state \<Rightarrow> result" where
  "esp_deep_sleep_start s = Stopped DeepSleep (emit DeepSleepStart s)"

text \<open>
  The pattern
  \<^verbatim>\<open>if(xSemaphoreTake(semaphoreSerial, portMAX_DELAY)){ ...; xSemaphoreGive(semaphoreSerial); }\<close>
  around every diagnostic write of the two tasks.
\<close>

definition serial_locked :: "env \<Rightarrow> (state \<Rightarrow> state) \<Rightarrow> state \<Rightarrow> state" where
  "serial_locked env body s =
     (let taken = xSemaphoreTake env (trace s);
          s1 = emit (SemTake taken) s
      in if taken then emit SemGive (body s1) else s1)"

subsection \<open>The interrupt handler\<close>

definition handlePMUIRQ :: "state \<Rightarrow> state" where
  "handlePMUIRQ s = emit (WritePekPressed True) (s\<lparr>pekPressed := True\<rparr>)"

subsection \<open>\<^verbatim>\<open>reconnectToMQTT\<close>\<close>

fun reconnectToMQTT :: "nat \<Rightarrow> env \<Rightarrow> state \<Rightarrow> result" where
  "reconnectToMQTT 0 env s = OutOfFuel s"
| "reconnectToMQTT (Suc n) env s =
     (let connected = mqtt_connected env (trace s);
          s1 = emit (MqttConnected connected) s
      in if connected then Normal s1
         else
           let s2 = serial_locked env (emit (SerialPrint ''Attempting MQTT connection...'')) s1;
               ok = mqtt_connect env (trace s2);
               s3 = emit (MqttConnect ok) s2
           in if ok then
                reconnectToMQTT n env (serial_locked env (emit (SerialPrintln ''connected'')) s3)
              else
                let s4 = serial_locked env
                           (\<lambda>t. let t1 = emit (SerialPrint ''failed, rc='') t;
                                    t2 = emit (SerialPrint (show_int (mqtt_state env (trace t1)))) t1
                                in emit (SerialPrintln '' try again in 5 seconds'') t2) s3;
                    s5 = emit (VTaskDelay 5000) s4
                in reconnectToMQTT n env s5)"

subsection \<open>\<^verbatim>\<open>MQTTTask\<close>\<close>

text \<open>The inner loop \<^verbatim>\<open>while(WiFi.status() != WL_CONNECTED)\<close> of the task.\<close>

fun wifi_wait :: "nat \<Rightarrow> env \<Rightarrow> state \<Rightarrow> result" where
  "wifi_wait 0 env s = OutOfFuel s"
| "wifi_wait (Suc n) env s =
     (let connected = wifi_connected env (trace s);
          s1 = emit (WiFiStatus connected) s
      in if connected then Normal s1
         else
           let s2 = emit (VTaskDelay 500) s1;
               s3 = serial_locked env (emit (SerialPrint ''.'')) s2;
               s4 = s3\<lparr>ledState := \<not> ledState s3\<rparr>;
               s5 = emit (DigitalWrite LED_PIN (ledState s4)) s4
           in wifi_wait n env s5)"

text \<open>The branch \<^verbatim>\<open>if(WiFi.status() != WL_CONNECTED){ ... }\<close>.\<close>

definition wifi_reconnect :: "nat \<Rightarrow> env \<Rightarrow> state \<Rightarrow> result" where
  "wifi_reconnect n env s =
     (let s1 = serial_locked env
                 (emits [SerialPrint ''Connecting to WIFI SSID '', SerialPrintln ssid]) s;
          s2 = emits [Call ''WiFi.mode'', Call ''WiFi.disconnect'', VTaskDelay 100,
                      Call ''WiFi.begin''] s1
      in and_then (wifi_wait n env s2) (\<lambda>s3.
           let s4 = serial_locked env
                      (\<lambda>t. let t1 = emits [SerialPrintln [],
                                            SerialPrint ''WiFi connected, IP address: ''] t
                           in emit (SerialPrintln (wifi_localIP env (trace t1))) t1) s3
           in Normal (if ledState s4 then emit (DigitalWrite LED_PIN False) s4 else s4)))"

text \<open>
  The three assignments before \<^verbatim>\<open>sprintf\<close>: \<open>soilTemp\<close> and \<open>soilMoist\<close> in
  hundredths, \<open>batVolt\<close> in thousandths.
\<close>

definition sample :: "env \<Rightarrow> state \<Rightarrow> (nat \<times> nat \<times> nat) \<times> state" where
  "sample env s =
     (let (soilTemp, s1) = random env 1000 4500 s;
          (soilMoist, s2) = random env 0 10000 s1;
          batVolt = batt_voltage env (trace s2);
          s3 = emit (AxpGetBattVoltage batVolt) s2
      in ((soilTemp, soilMoist, batVolt), s3))"

text \<open>The block between the comments \<^verbatim>\<open>MQTT Pub\<close> and \<^verbatim>\<open>MQTT Pub END\<close>.\<close>

definition mqtt_pub :: "env \<Rightarrow> state \<Rightarrow> result" where
  "mqtt_pub env s =
     (let ((soilTemp, soilMoist, batVolt), s1) = sample env s
      in case dataStr (bootCount s1) soilTemp soilMoist batVolt of
           None \<Rightarrow> Stopped Undefined s1
         | Some str \<Rightarrow>
             let ok = mqtt_publish env (trace s1);
                 s2 = emit (MqttPublish mqttTopicPub str ok) s1
             in if ok then
                  let s3 = serial_locked env
                             (emits [SerialPrintln str,
                                     SerialPrintln ''Going to sleep until next TX...'']) s2;
                      s4 = s3\<lparr>bootCount := bootCount s3 + 1\<rparr>;
                      s5 = emit (SleepEnableTimerWakeup SLEEP_DURATION_US) s4
                  in esp_deep_sleep_start s5
                else
                  Normal (serial_locked env (emit (SerialPrintln ''Failed to publish data'')) s2))"

text \<open>One pass through the body of \<^verbatim>\<open>while(true)\<close>.\<close>

definition MQTTTask_body :: "nat \<Rightarrow> env \<Rightarrow> state \<Rightarrow> result" where
  "MQTTTask_body n env s =
     (let s1 = emit (Call ''ArduinoOTA.handle'') s;
          connected = mqtt_connected env (trace s1);
          s2 = emit (MqttConnected connected) s1
      in and_then (if \<not> connected then reconnectToMQTT n env s2 else Normal s2) (\<lambda>s3.
           let s4 = emit MqttLoop s3;
               wifi = wifi_connected env (trace s4);
               s5 = emit (WiFiStatus wifi) s4
           in and_then (if \<not> wifi then wifi_reconnect n env s5 else mqtt_pub env s5) (\<lambda>s6.
                Normal (emit (VTaskDelay 100) s6))))"

fun MQTTTask :: "nat \<Rightarrow> env \<Rightarrow> state \<Rightarrow> result" where
  "MQTTTask 0 env s = OutOfFuel s"
| "MQTTTask (Suc n) env s = and_then (MQTTTask_body n env s) (MQTTTask n env)"

subsection \<open>\<^verbatim>\<open>PEKTask\<close>\<close>

text \<open>
  One pass through the body of \<^verbatim>\<open>while(true)\<close>: the calls of the task itself, in
  program order. The interrupt handler does not run inside the pass here; the pass in
  which it may run is \<open>PEKTask_body_irq\<close> below.
\<close>

definition PEKTask_body :: "env \<Rightarrow> state \<Rightarrow> result" where
  "PEKTask_body env s =
     and_then
       (if pekPressed s then
          let s1 = emit (WritePekPressed False) (s\<lparr>pekPressed := False\<rparr>);
              s2 = emit AxpReadIRQ s1;
              long = axp_isPEKLongtPressIRQ env (trace s2);
              s3 = emit (AxpIsPEKLongtPressIRQ long) s2
          in and_then
               (if long then
                  let s4 = serial_locked env
                             (emit (SerialPrintln ''Long press detected: Shutting down...'')) s3;
                      s5 = emit (VTaskDelay 100) s4
                  in axp_shutdown env s5
                else Normal s3)
               (\<lambda>s6. Normal (emit AxpClearIRQ s6))
        else Normal s)
       (\<lambda>s7. Normal (emit (VTaskDelay 100) s7))"

text \<open>
  The task polls. The handler runs in interrupt context; the loop lets it run between two
  polls, when the environment says that an edge arrived.
\<close>

definition interrupts :: "env \<Rightarrow> state \<Rightarrow> state" where
  "interrupts env s = (if pmu_irq env (trace s) then handlePMUIRQ s else s)"

fun PEKTask :: "nat \<Rightarrow> env \<Rightarrow> state \<Rightarrow> result" where
  "PEKTask 0 env s = OutOfFuel s"
| "PEKTask (Suc n) env s = and_then (PEKTask_body env (interrupts env s)) (PEKTask n env)"

text \<open>
  \<open>pekPressed\<close> is \<^verbatim>\<open>volatile\<close> because the handler can run at any moment, also
  while a pass is under way. \<open>during env e\<close> is a call of the task during which an
  edge may arrive: the call, and then the handler when the environment says so.
  \<open>PEKTask_body_irq\<close> is the same pass as \<open>PEKTask_body\<close> with every call made that
  way. (A handler run between the test of the flag and the store of \<^verbatim>\<open>false\<close> finds
  the flag set already; it is the run that \<open>interrupts\<close> places before the pass.)
  The last delay of the pass is where the task waits for the next poll; edges that arrive
  there are those of \<open>interrupts\<close>.
\<close>

definition during :: "env \<Rightarrow> event \<Rightarrow> state \<Rightarrow> state" where
  "during env e s = interrupts env (emit e s)"

definition PEKTask_body_irq :: "env \<Rightarrow> state \<Rightarrow> result" where
  "PEKTask_body_irq env s =
     and_then
       (if pekPressed s then
          let s1 = during env (WritePekPressed False) (s\<lparr>pekPressed := False\<rparr>);
              s2 = during env AxpReadIRQ s1;
              long = axp_isPEKLongtPressIRQ env (trace s2);
              s3 = during env (AxpIsPEKLongtPressIRQ long) s2
          in and_then
               (if long then
                  let taken = xSemaphoreTake env (trace s3);
                      t1 = during env (SemTake taken) s3;
                      s4 = (if taken then
                              during env SemGive
                                (during env
                                   (SerialPrintln ''Long press detected: Shutting down...'') t1)
                            else t1);
                      s5 = during env (VTaskDelay 100) s4
                  in and_then (axp_shutdown env s5) (\<lambda>t. Normal (interrupts env t))
                else Normal s3)
               (\<lambda>s6. Normal (during env AxpClearIRQ s6))
        else Normal s)
       (\<lambda>s7. Normal (emit (VTaskDelay 100) s7))"

subsection \<open>\<^verbatim>\<open>setup\<close>\<close>

text \<open>The function is called \<open>setup_fn\<close> here, \<open>setup\<close> being a word of Isabelle.\<close>

text \<open>\<^verbatim>\<open>while(1);\<close> does nothing, for ever.\<close>

fun halt :: "nat \<Rightarrow> state \<Rightarrow> result" where
  "halt 0 s = OutOfFuel s"
| "halt (Suc n) s = halt n s"

text \<open>The loop \<^verbatim>\<open>while(WiFi.status() != WL_CONNECTED)\<close> of \<^verbatim>\<open>setup\<close>.\<close>

fun wifi_wait_setup :: "nat \<Rightarrow> env \<Rightarrow> state \<Rightarrow> result" where
  "wifi_wait_setup 0 env s = OutOfFuel s"
| "wifi_wait_setup (Suc n) env s =
     (let connected = wifi_connected env (trace s);
          s1 = emit (WiFiStatus connected) s
      in if connected then Normal s1
         else
           let s2 = emits [Delay 500, SerialPrint ''.''] s1;
               s3 = s2\<lparr>ledState := \<not> ledState s2\<rparr>;
               s4 = emit (DigitalWrite LED_PIN (ledState s3)) s3;
               pin = pmu_irq_pin env (trace s4);
               s5 = emit (DigitalRead PMU_IRQ_PIN pin) s4
           in and_then
                (if \<not> pin then
                   let s6 = emit AxpReadIRQ s5;
                       long = axp_isPEKLongtPressIRQ env (trace s6);
                       s7 = emit (AxpIsPEKLongtPressIRQ long) s6
                   in and_then
                        (if long then
                           axp_shutdown env
                             (emits [SerialPrintln ''Long press detected: Shutting down...'',
                                     Delay 100] s7)
                         else Normal s7)
                        (\<lambda>s8. Normal (emit AxpClearIRQ s8))
                 else Normal s5)
                (wifi_wait_setup n env))"

definition setupOTA :: "state \<Rightarrow> state" where
  "setupOTA s =
     emits [Call ''ArduinoOTA.setHostname'', Call ''ArduinoOTA.setPassword'',
            Call ''ArduinoOTA.onStart'', Call ''ArduinoOTA.onEnd'',
            Call ''ArduinoOTA.onProgress'', Call ''ArduinoOTA.onError'',
            Call ''ArduinoOTA.begin'', SerialPrintln ''OTA service started!''] s"

definition setup_fn :: "nat \<Rightarrow> env \<Rightarrow> state \<Rightarrow> result" where
  "setup_fn n env s =
     (let s1 = emits [Call ''Serial.begin'', SerialPrintln ''Soil Quality Sensor Beta'',
                      Call ''Wire.begin''] s;
          rc = axp_begin env (trace s1);
          s2 = emit (AxpBegin rc) s1
      in if rc \<noteq> 0 then halt n (emit (SerialPrintln ''AXP192 not detected!'') s2)
         else
           let s3 = emits [SerialPrintln ''AXP192 detected'',
                           Call ''axp.setPowerOutPut(AXP192_LDO2, AXP202_OFF)'',
                           Call ''axp.setPowerOutPut(AXP192_LDO3, AXP202_OFF)'',
                           SerialPrintln ''GPS and LoRa powered off'',
                           Call ''axp.adc1Enable'', Call ''pinMode(PMU_IRQ_PIN, INPUT)'',
                           AxpClearIRQ, Call ''axp.enableIRQ'', Call ''attachInterrupt'',
                           Call ''pinMode(LED_PIN, OUTPUT)'',
                           DigitalWrite LED_PIN (ledState s2),
                           Call ''esp_sleep_enable_ext0_wakeup'',
                           SerialPrint ''Connecting to WIFI SSID '', SerialPrintln ssid,
                           Call ''WiFi.mode'', Call ''WiFi.disconnect'', Delay 100,
                           Call ''WiFi.begin''] s2
           in and_then (wifi_wait_setup n env s3) (\<lambda>s4.
                let s5 = emits [SerialPrintln [],
                                SerialPrint ''WiFi connected, IP address: ''] s4;
                    s6 = emit (SerialPrintln (wifi_localIP env (trace s5))) s5;
                    s7 = (if ledState s6 then emit (DigitalWrite LED_PIN False) s6 else s6);
                    s8 = setupOTA s7
                in Normal (emits [Call ''secureClient.setCACert'', Call ''mqttClient.setServer'',
                                  Call ''xSemaphoreCreateMutex'',
                                  TaskCreate ''MQTTTask'' 1, TaskCreate ''PEKTask'' 0] s8)))"

subsection \<open>Wake cycles\<close>

text \<open>
  A wake cycle as the Telemetry Task lives it: \<^verbatim>\<open>setup\<close> runs, then the task. The Power
  Task runs beside it on the other core and is described by \<open>PEKTask\<close> on its own.
  \<^verbatim>\<open>loop()\<close> only calls \<^verbatim>\<open>delay(10000)\<close> and is left out.
\<close>

definition wake_cycle :: "nat \<Rightarrow> env \<Rightarrow> state \<Rightarrow> result" where
  "wake_cycle n env s = and_then (setup_fn n env s) (MQTTTask n env)"

text \<open>
  \<open>cycles k\<close>: \<open>k\<close> wake cycles in a row that each end in deep sleep; the result is
  the state in which the next cycle would start.
\<close>

fun cycles :: "nat \<Rightarrow> nat \<Rightarrow> env \<Rightarrow> state \<Rightarrow> state option" where
  "cycles 0 n env s = Some s"
| "cycles (Suc k) n env s =
     (case wake_cycle n env s of
        Stopped DeepSleep s' \<Rightarrow> cycles k n env (wake s')
      | _ \<Rightarrow> None)"

subsection \<open>Reading traces\<close>

text \<open>What a piece of code added to the trace of the state it started in.\<close>

definition new_events :: "state \<Rightarrow> result \<Rightarrow> event list" where
  "new_events s r = drop (length (trace s)) (trace (final r))"

definition is_publish :: "event \<Rightarrow> bool" where
  "is_publish e = (case e of MqttPublish _ _ _ \<Rightarrow> True | _ \<Rightarrow> False)"

definition is_delay :: "event \<Rightarrow> bool" where
  "is_delay e = (case e of VTaskDelay _ \<Rightarrow> True | _ \<Rightarrow> False)"

text \<open>
  The Shared Console Lock as one task sees it. After a successful
  \<^verbatim>\<open>xSemaphoreTake\<close> the task holds the lock; while it holds it, the only things it may
  do are diagnostic writes and \<^verbatim>\<open>xSemaphoreGive\<close>. Anything else while the lock is
  held, a call that does not return among them, breaks the discipline for good, and so
  does giving a lock that is not held.
\<close>

datatype lock = Free | Held | Broken

definition lock_step :: "lock \<Rightarrow> event \<Rightarrow> lock" where
  "lock_step l e =
     (case l of
        Free \<Rightarrow> (case e of SemTake taken \<Rightarrow> if taken then Held else Free
                          | SemGive \<Rightarrow> Broken
                          | _ \<Rightarrow> Free)
      | Held \<Rightarrow> (case e of SerialPrint _ \<Rightarrow> Held
                          | SerialPrintln _ \<Rightarrow> Held
                          | SemGive \<Rightarrow> Free
                          | _ \<Rightarrow> Broken)
      | Broken \<Rightarrow> Broken)"

definition lock_of :: "event list \<Rightarrow> lock" where
  "lock_of es = foldl lock_step Free es"

definition non_returning :: "event \<Rightarrow> bool" where
  "non_returning e = (e = DeepSleepStart \<or> e = AxpShutdown)"

text \<open>The events of \<open>during env e\<close> when the history is \<open>tr\<close>.\<close>

definition irq_events :: "env \<Rightarrow> event list \<Rightarrow> event \<Rightarrow> event list" where
  "irq_events env tr e = e # (if pmu_irq env (tr @ [e]) then [WritePekPressed True] else [])"

text \<open>
  \<open>since s t\<close>: from \<open>s\<close> to \<open>t\<close> the trace only grew, the flag was not cleared,
  and it is set in \<open>t\<close> exactly when it was set in \<open>s\<close> or the handler ran in between.
\<close>

definition since :: "state \<Rightarrow> state \<Rightarrow> bool" where
  "since s t =
     (\<exists>es. trace t = trace s @ es \<and> WritePekPressed False \<notin> set es \<and>
           (pekPressed t = (pekPressed s \<or> WritePekPressed True \<in> set es)))"

text \<open>The events of one guarded diagnostic write, \<open>body\<close> being what is written.\<close>

definition locked_events :: "bool \<Rightarrow> event list \<Rightarrow> event list" where
  "locked_events taken body = SemTake taken # (if taken then body @ [SemGive] else [])"

text \<open>
  One round of the loop of \<^verbatim>\<open>reconnectToMQTT\<close> that finds the session down, as the
  list of its events; \<open>tr\<close> is the history when the round starts.
\<close>

definition attempt :: "env \<Rightarrow> event list \<Rightarrow> event list" where
  "attempt env tr =
     (let a = MqttConnected False #
              locked_events (xSemaphoreTake env (tr @ [MqttConnected False]))
                [SerialPrint ''Attempting MQTT connection...''];
          ok = mqtt_connect env (tr @ a);
          b = a @ [MqttConnect ok];
          taken = xSemaphoreTake env (tr @ b)
      in if ok then b @ locked_events taken [SerialPrintln ''connected'']
         else b @ locked_events taken
                    [SerialPrint ''failed, rc='',
                     SerialPrint (show_int (mqtt_state env
                        (tr @ b @ [SemTake True, SerialPrint ''failed, rc='']))),
                     SerialPrintln '' try again in 5 seconds'']
                @ [VTaskDelay 5000])"

text \<open>One round of the loop of \<open>wifi_wait\<close> that finds the network down.\<close>

definition wifi_round :: "env \<Rightarrow> event list \<Rightarrow> bool \<Rightarrow> event list" where
  "wifi_round env tr led =
     [WiFiStatus False, VTaskDelay 500]
     @ locked_events (xSemaphoreTake env (tr @ [WiFiStatus False, VTaskDelay 500]))
         [SerialPrint ''.'']
     @ [DigitalWrite LED_PIN (\<not> led)]"

definition is_sleep :: "event \<Rightarrow> bool" where
  "is_sleep e = (case e of SleepEnableTimerWakeup _ \<Rightarrow> True | DeepSleepStart \<Rightarrow> True
                 | _ \<Rightarrow> False)"

definition lock_from :: "lock \<Rightarrow> event list \<Rightarrow> lock" where
  "lock_from l es = foldl lock_step l es"

text \<open>
  Events that publish nothing, do not touch the sleep controller, and leave the console
  lock as they found it.
\<close>

definition quiet :: "event list \<Rightarrow> bool" where
  "quiet es = ((\<forall>e\<in>set es. \<not> is_publish e \<and> \<not> is_sleep e) \<and> lock_from Free es = Free)"

definition extends :: "state \<Rightarrow> state \<Rightarrow> bool" where
  "extends s s' =
     (bootCount s' = bootCount s \<and> (\<exists>es. trace s' = trace s @ es \<and> quiet es))"

text \<open>
  What the Telemetry Task does from the publish call on: after a publish that succeeded,
  and, up to the end of the pass, after one that failed.
\<close>

definition sleep_events :: "string \<Rightarrow> bool \<Rightarrow> event list" where
  "sleep_events str taken =
     MqttPublish mqttTopicPub str True #
     locked_events taken [SerialPrintln str, SerialPrintln ''Going to sleep until next TX...'']
     @ [SleepEnableTimerWakeup SLEEP_DURATION_US, DeepSleepStart]"

definition failure_events :: "string \<Rightarrow> bool \<Rightarrow> event list" where
  "failure_events str taken =
     MqttPublish mqttTopicPub str False #
     locked_events taken [SerialPrintln ''Failed to publish data''] @ [VTaskDelay 100]"

text \<open>
  A run of \<open>MQTTTask\<close> that started in \<open>s\<close>, ended as \<open>r\<close> and added the events
  \<open>es\<close>: the task never returns; when the fuel runs out the counter is untouched and the
  sleep controller was not used; when the task stops, it stops in deep sleep, the counter
  is one higher, and the run ends with \<open>sleep_events\<close>.
\<close>

definition task_run :: "state \<Rightarrow> result \<Rightarrow> event list \<Rightarrow> bool" where
  "task_run s r es =
     (trace (final r) = trace s @ es \<and> lock_from Free es = Free \<and>
      (case r of
         Normal _ \<Rightarrow> False
       | OutOfFuel s' \<Rightarrow> bootCount s' = bootCount s \<and> (\<forall>e\<in>set es. \<not> is_sleep e)
       | Stopped st s' \<Rightarrow>
           st = DeepSleep \<and> bootCount s' = bootCount s + 1 \<and>
           (\<exists>pre str taken. es = pre @ sleep_events str taken \<and>
              (\<forall>e\<in>set pre. \<not> is_sleep e))))"

definition is_task_create :: "event \<Rightarrow> bool" where
  "is_task_create e = (case e of TaskCreate _ _ \<Rightarrow> True | _ \<Rightarrow> False)"

text \<open>The events of sampling and publishing.\<close>

definition is_telemetry :: "event \<Rightarrow> bool" where
  "is_telemetry e =
     (case e of Random _ _ _ \<Rightarrow> True | AxpGetBattVoltage _ \<Rightarrow> True
      | MqttPublish _ _ _ \<Rightarrow> True | _ \<Rightarrow> False)"

subsection \<open>Environments for the examples\<close>

text \<open>
  \<open>healthy\<close>: every call succeeds at once, nobody presses the button. \<open>random\<close>
  first draws 1500 and then 5000, so that the record is (25.00, 50.00); the battery is at
  4.100 V.
\<close>

definition healthy :: env where
  "healthy =
     \<lparr>axp_begin = (\<lambda>_. 0),
      axp_isPEKLongtPressIRQ = (\<lambda>_. False),
      shutdown_returns = (\<lambda>_. False),
      batt_voltage = (\<lambda>_. 4100),
      wifi_connected = (\<lambda>_. True),
      wifi_localIP = (\<lambda>_. ''192.168.1.50''),
      pmu_irq_pin = (\<lambda>_. True),
      pmu_irq = (\<lambda>_. False),
      mqtt_connected = (\<lambda>_. True),
      mqtt_connect = (\<lambda>_. True),
      mqtt_state = (\<lambda>_. 0),
      mqtt_publish = (\<lambda>_. True),
      xSemaphoreTake = (\<lambda>_. True),
      random_source = (\<lambda>tr. case rev tr of Random _ _ _ # _ \<Rightarrow> 5000 | _ \<Rightarrow> 1500)\<rparr>"

text \<open>The button is held long enough, and the power-off takes effect.\<close>

definition long_press :: env where
  "long_press = healthy\<lparr>axp_isPEKLongtPressIRQ := (\<lambda>_. True)\<rparr>"

text \<open>The broker refuses every publish.\<close>

definition publish_fails :: env where
  "publish_fails = healthy\<lparr>mqtt_publish := (\<lambda>_. False)\<rparr>"

text \<open>The power-management chip does not answer.\<close>

definition no_pmu :: env where
  "no_pmu = healthy\<lparr>axp_begin := (\<lambda>_. - 1)\<rparr>"

text \<open>
  The session is down; the first \<open>k\<close> attempts to connect fail with status -2, the
  next one succeeds.
\<close>

definition failed_attempts :: "event list \<Rightarrow> nat" where
  "failed_attempts es = count_list es (MqttConnect False)"

definition broker_down :: "nat \<Rightarrow> env" where
  "broker_down k =
     healthy\<lparr>mqtt_connected := (\<lambda>tr. MqttConnect True \<in> set tr),
             mqtt_connect := (\<lambda>tr. k \<le> failed_attempts tr),
             mqtt_state := (\<lambda>_. - 2)\<rparr>"

text \<open>The broker never accepts the session.\<close>

definition never_up :: env where
  "never_up =
     healthy\<lparr>mqtt_connected := (\<lambda>_. False), mqtt_connect := (\<lambda>_. False),
             mqtt_state := (\<lambda>_. - 2)\<rparr>"

text \<open>A new edge arrives while \<^verbatim>\<open>axp.clearIRQ()\<close> is under way.\<close>

definition second_edge :: env where
  "second_edge =
     healthy\<lparr>pmu_irq := (\<lambda>tr. case rev tr of AxpClearIRQ # _ \<Rightarrow> True | _ \<Rightarrow> False)\<rparr>"

text \<open>The soil is dry: the generator draws 525 each time.\<close>

definition dry_soil :: env where
  "dry_soil = healthy\<lparr>random_source := (\<lambda>_. 525)\<rparr>"

definition pressed :: state where
  "pressed = power_on\<lparr>pekPressed := True\<rparr>"

text \<open>The seventh boot, and the payload of the scenario of the specification.\<close>

definition boot7 :: state where
  "boot7 = power_on\<lparr>bootCount := 7\<rparr>"

definition payload7 :: string where
  "payload7 = ''{\"bootCnt\":7,\"soilTemperature\":25.00,\"soilMoisture\":50.00,\"batVoltage\":4.100}''"

text \<open>The largest value a \<^verbatim>\<open>uint32_t\<close> holds.\<close>

definition boot_max :: state where
  "boot_max = power_on\<lparr>bootCount := 4294967295\<rparr>"

text \<open>As \<open>healthy\<close>, with a weaker battery.\<close>

definition low_battery :: env where
  "low_battery = healthy\<lparr>batt_voltage := (\<lambda>_. 3700)\<rparr>"

section \<open>Properties\<close>

subsection \<open>Basic facts\<close>

lemma trace_emit [simp]: "trace (emit e s) = trace s @ [e]"
  and bootCount_emit [simp]: "bootCount (emit e s) = bootCount s"
  and pekPressed_emit [simp]: "pekPressed (emit e s) = pekPressed s"
  and ledState_emit [simp]: "ledState (emit e s) = ledState s"
  by (simp_all add: emit_def)

lemma trace_emits [simp]: "trace (emits es s) = trace s @ es"
  and bootCount_emits [simp]: "bootCount (emits es s) = bootCount s"
  and pekPressed_emits [simp]: "pekPressed (emits es s) = pekPressed s"
  and ledState_emits [simp]: "ledState (emits es s) = ledState s"
  by (simp_all add: emits_def)

lemma and_then_simps [simp]:
  "and_then (Normal s) f = f s"
  "and_then (Stopped st s) f = Stopped st s"
  "and_then (OutOfFuel s) f = OutOfFuel s"
  by (simp_all add: and_then_def)

lemma new_events_append [simp]: "trace (final r) = trace s @ es \<Longrightarrow> new_events s r = es"
  by (simp add: new_events_def)

lemma final_and_then_Normal:
  "final (and_then r (\<lambda>s. Normal (f s))) = (case r of Normal s \<Rightarrow> f s | _ \<Rightarrow> final r)"
  by (cases r) simp_all

lemma count_list_app [simp]: "count_list (xs @ ys) x = count_list xs x + count_list ys x"
  by (induction xs) auto

lemma failed_attempts_append [simp]:
  "failed_attempts (es @ fs) = failed_attempts es + failed_attempts fs"
  by (simp add: failed_attempts_def)

lemma halt_eq [simp]: "halt n s = OutOfFuel s"
  by (induction n) simp_all

lemma bootCount_wake [simp]: "bootCount (wake s) = bootCount s"
  by (simp add: wake_def)

subsection \<open>The payload\<close>

lemma length_frac_digits [simp]: "length (frac_digits p n) = p"
  by (induction p arbitrary: n) auto

lemma dec_nonempty: "dec n \<noteq> []"
  by (subst dec.simps) simp

lemma dec_digit: "n < 10 \<Longrightarrow> dec n = [digit_char n]"
  by (subst dec.simps) simp

lemma dec_step: "10 \<le> n \<Longrightarrow> dec n = dec (n div 10) @ [digit_char n]"
  by (subst dec.simps) simp

lemma length_dec_big: "10 \<le> n \<Longrightarrow> 2 \<le> length (dec n)"
  using dec_nonempty [of "n div 10"] by (simp add: dec_step Suc_le_eq)

lemma frac2: "frac_digits 2 n = [digit_char (n div 10), digit_char n]"
  by (simp add: numeral_2_eq_2)

lemma frac3: "frac_digits 3 n = [digit_char (n div 100), digit_char (n div 10), digit_char n]"
  by (simp add: numeral_3_eq_3 div_mult2_eq [symmetric])

text \<open>\<^verbatim>\<open>%4.2f\<close> and \<^verbatim>\<open>%4.3f\<close> never pad; \<^verbatim>\<open>%5.2f\<close> pads a value below 10.\<close>

lemma pad4_fixed2: "pad_left 4 (fixed 2 v) = fixed 2 v"
  using dec_nonempty [of "v div 100"]
  by (simp add: pad_left_def fixed_def Suc_le_eq)

lemma pad4_fixed3: "pad_left 4 (fixed 3 v) = fixed 3 v"
  by (simp add: pad_left_def fixed_def)

lemma pad5_fixed2: "pad_left 5 (fixed 2 v) = (if v < 1000 then '' '' else []) @ fixed 2 v"
proof (cases "v < 1000")
  case True
  then have "v div 100 < 10" by simp
  then have "length (dec (v div 100)) = 1" by (simp add: dec_digit)
  with True show ?thesis by (simp add: pad_left_def fixed_def)
next
  case False
  then have "10 \<le> v div 100" by simp
  then have "2 \<le> length (dec (v div 100))" by (rule length_dec_big)
  with False show ?thesis by (simp add: pad_left_def fixed_def)
qed

lemma format_payload:
  "dataStr bc t m v = Some (''{\"bootCnt\":'' @ dec (unat bc) @
     '',\"soilTemperature\":'' @ pad_left 4 (fixed 2 t) @
     '',\"soilMoisture\":'' @ pad_left 5 (fixed 2 m) @
     '',\"batVoltage\":'' @ pad_left 4 (fixed 3 v) @ ''}'')"
  by (simp add: dataStr_def sprintf_def payload_format_def is_digit_def digit_val_def
        del: add_2_eq_Suc add_2_eq_Suc')

lemma dataStr_eq:
  "dataStr bc t m v = Some (''{\"bootCnt\":'' @ dec (unat bc) @
     '',\"soilTemperature\":'' @ fixed 2 t @
     '',\"soilMoisture\":'' @ (if m < 1000 then '' '' else []) @ fixed 2 m @
     '',\"batVoltage\":'' @ fixed 3 v @ ''}'')"
  by (simp only: format_payload pad4_fixed2 pad4_fixed3 pad5_fixed2 append_assoc)

lemma dataStr_Some: "\<exists>str. dataStr bc t m v = Some str"
  by (simp add: dataStr_eq)

lemma fixed_examples:
  "fixed 2 2500 = ''25.00''" "fixed 2 5000 = ''50.00''" "fixed 3 4100 = ''4.100''"
  "fixed 2 525 = ''5.25''" "dec 7 = ''7''"
  by (simp_all add: fixed_def dec_digit dec_step frac2 frac3 digit_char_def)

subsection \<open>The Power Task\<close>

lemma PEK_not_pressed:
  "\<not> pekPressed s \<Longrightarrow> PEKTask_body env s = Normal (emit (VTaskDelay 100) s)"
  by (simp add: PEKTask_body_def)

lemma PEK_short:
  assumes "pekPressed s"
    and "\<not> axp_isPEKLongtPressIRQ env (trace s @ [WritePekPressed False, AxpReadIRQ])"
  shows "PEKTask_body env s =
           Normal (emits [WritePekPressed False, AxpReadIRQ, AxpIsPEKLongtPressIRQ False,
                          AxpClearIRQ, VTaskDelay 100] (s\<lparr>pekPressed := False\<rparr>))"
  using assms by (simp add: PEKTask_body_def Let_def emit_def emits_def)

lemma PEK_long:
  fixes env s
  defines "classified \<equiv>
    trace s @ [WritePekPressed False, AxpReadIRQ, AxpIsPEKLongtPressIRQ True]"
  defines "taken \<equiv> xSemaphoreTake env classified"
  defines "ret \<equiv>
    shutdown_returns env
      (classified
       @ locked_events taken [SerialPrintln ''Long press detected: Shutting down...'']
       @ [VTaskDelay 100])"
  assumes "pekPressed s"
    and "axp_isPEKLongtPressIRQ env (trace s @ [WritePekPressed False, AxpReadIRQ])"
  shows "PEKTask_body env s =
           (if ret then Normal else Stopped PowerOff)
             (emits ([WritePekPressed False, AxpReadIRQ, AxpIsPEKLongtPressIRQ True]
                     @ locked_events taken
                         [SerialPrintln ''Long press detected: Shutting down...'']
                     @ [VTaskDelay 100, AxpShutdown]
                     @ (if ret then [AxpClearIRQ, VTaskDelay 100] else []))
                (s\<lparr>pekPressed := False\<rparr>))"
  using assms
  by (simp add: PEKTask_body_def Let_def serial_locked_def axp_shutdown_def locked_events_def
      emit_def emits_def)

subsection \<open>The Power Task and the handler\<close>

text \<open>What \<open>during\<close> does to the trace and to the flag.\<close>

lemma trace_during [simp]: "trace (during env e s) = trace s @ irq_events env (trace s) e"
  by (simp add: during_def interrupts_def handlePMUIRQ_def irq_events_def)

lemma pekPressed_during [simp]:
  "pekPressed (during env e s) = (pekPressed s \<or> pmu_irq env (trace s @ [e]))"
  by (simp add: during_def interrupts_def handlePMUIRQ_def)

lemma since_refl [simp]: "since s s"
  by (simp add: since_def)

lemma since_trans: "since s t \<Longrightarrow> since t u \<Longrightarrow> since s u"
  by (auto simp: since_def)

lemma since_emit:
  "since s t \<Longrightarrow> e \<noteq> WritePekPressed False \<Longrightarrow> e \<noteq> WritePekPressed True
   \<Longrightarrow> since s (emit e t)"
  by (auto simp: since_def)

lemma since_interrupts: "since s t \<Longrightarrow> since s (interrupts env t)"
  by (auto simp: since_def interrupts_def handlePMUIRQ_def)

lemma since_during:
  "since s t \<Longrightarrow> e \<noteq> WritePekPressed False \<Longrightarrow> e \<noteq> WritePekPressed True
   \<Longrightarrow> since s (during env e t)"
  unfolding during_def by (intro since_interrupts since_emit)

lemma PEK_irq_not_pressed:
  "\<not> pekPressed s \<Longrightarrow> PEKTask_body_irq env s = Normal (emit (VTaskDelay 100) s)"
  by (simp add: PEKTask_body_irq_def)

lemma PEK_irq_since:
  fixes env s
  defines "s1 \<equiv> during env (WritePekPressed False) (s\<lparr>pekPressed := False\<rparr>)"
  defines "s2 \<equiv> during env AxpReadIRQ s1"
  defines "s3 \<equiv> during env (AxpIsPEKLongtPressIRQ (axp_isPEKLongtPressIRQ env (trace s2))) s2"
  assumes "pekPressed s"
  shows "since s3 (final (PEKTask_body_irq env s))"
  using assms(4)
  by (simp add: PEKTask_body_irq_def Let_def axp_shutdown_def s1_def [symmetric]
      s2_def [symmetric] s3_def [symmetric])
    (intro conjI impI since_during since_emit since_interrupts since_refl; simp)

lemma PEK_irq_no_irq:
  assumes "pmu_irq env = (\<lambda>_. False)"
  shows "PEKTask_body_irq env s = PEKTask_body env s"
  by (simp add: PEKTask_body_irq_def PEKTask_body_def during_def interrupts_def assms Let_def
      serial_locked_def axp_shutdown_def)

lemma second_edge_sel:
  "axp_isPEKLongtPressIRQ second_edge = (\<lambda>_. False)"
  "pmu_irq second_edge tr = (case rev tr of AxpClearIRQ # _ \<Rightarrow> True | _ \<Rightarrow> False)"
  by (simp_all add: second_edge_def healthy_def)

text \<open>
  A pass that found the flag set, with the handler running where the environment says:
  its first events, the only store of \<open>False\<close>, and the flag at its end.
\<close>

lemma PEK_irq_pass:
  fixes env s
  defines "r \<equiv> PEKTask_body_irq env s"
  defines "a \<equiv> irq_events env (trace s) (WritePekPressed False)"
  defines "b \<equiv> irq_events env (trace s @ a) AxpReadIRQ"
  defines "c \<equiv> axp_isPEKLongtPressIRQ env (trace s @ a @ b)"
  assumes "pekPressed s"
  shows "\<exists>rest. new_events s r = a @ b @ AxpIsPEKLongtPressIRQ c # rest"
    and "WritePekPressed False \<notin> set (tl (new_events s r))"
    and "pekPressed (final r) = (WritePekPressed True \<in> set (tl (new_events s r)))"
    and "pmu_irq env = (\<lambda>_. False) \<longrightarrow> r = PEKTask_body env s \<and> \<not> pekPressed (final r)"
proof -
  define s1 where "s1 = during env (WritePekPressed False) (s\<lparr>pekPressed := False\<rparr>)"
  define s2 where "s2 = during env AxpReadIRQ s1"
  define s3 where "s3 = during env (AxpIsPEKLongtPressIRQ (axp_isPEKLongtPressIRQ env (trace s2))) s2"
  have t2: "trace s2 = trace s @ a @ b"
    by (simp add: s2_def s1_def a_def b_def)
  have t3: "trace s3 = trace s @ a @ b @ irq_events env (trace s @ a @ b) (AxpIsPEKLongtPressIRQ c)"
    by (simp add: s3_def t2 c_def)
  have p3: "pekPressed s3 =
      (WritePekPressed True \<in> set (tl a @ b @ irq_events env (trace s @ a @ b) (AxpIsPEKLongtPressIRQ c)))"
    by (auto simp: s3_def t2 c_def s2_def s1_def a_def b_def irq_events_def)
  have n3: "WritePekPressed False \<notin> set (tl a @ b @ irq_events env (trace s @ a @ b) (AxpIsPEKLongtPressIRQ c))"
    by (simp add: a_def b_def irq_events_def)
  have "since s3 (final r)"
    unfolding r_def s3_def s2_def s1_def using assms(5) by (rule PEK_irq_since)
  then obtain es where es: "trace (final r) = trace s3 @ es" "WritePekPressed False \<notin> set es"
    "pekPressed (final r) = (pekPressed s3 \<or> WritePekPressed True \<in> set es)"
    unfolding since_def by blast
  have ne: "new_events s r =
      a @ b @ irq_events env (trace s @ a @ b) (AxpIsPEKLongtPressIRQ c) @ es"
    by (simp add: new_events_def es(1) t3)
  have hd_a: "a = WritePekPressed False # tl a"
    by (simp add: a_def irq_events_def)
  show "\<exists>rest. new_events s r = a @ b @ AxpIsPEKLongtPressIRQ c # rest"
    by (simp add: ne irq_events_def)
  have tl_ne: "tl (new_events s r) =
      (tl a @ b @ irq_events env (trace s @ a @ b) (AxpIsPEKLongtPressIRQ c)) @ es"
    by (subst ne, subst hd_a) simp
  show "WritePekPressed False \<notin> set (tl (new_events s r))"
    using n3 es(2) unfolding tl_ne by simp
  show "pekPressed (final r) = (WritePekPressed True \<in> set (tl (new_events s r)))"
    unfolding tl_ne es(3) p3 by simp
  show "pmu_irq env = (\<lambda>_. False) \<longrightarrow> r = PEKTask_body env s \<and> \<not> pekPressed (final r)"
  proof
    assume q: "pmu_irq env = (\<lambda>_. False)"
    have "r = PEKTask_body env s"
      unfolding r_def using q by (rule PEK_irq_no_irq)
    moreover have "\<not> pekPressed (final r)"
      using assms(5)
      by (simp add: r_def PEKTask_body_irq_def during_def interrupts_def q Let_def
          axp_shutdown_def)
    ultimately show "r = PEKTask_body env s \<and> \<not> pekPressed (final r)" ..
  qed
qed

text \<open>
  C4 as stated does not hold: the flag is not always \<open>False\<close> after a pass. In
  \<open>second_edge\<close> a new edge arrives while \<^verbatim>\<open>axp.clearIRQ()\<close> is under way; the handler
  stores \<open>True\<close> after the task stored \<open>False\<close>, and the pass ends with the flag set
  (the press was a short one).
\<close>

theorem PEKTask_flag_set_again_counterexample:
  "pekPressed pressed \<and>
   new_events pressed (PEKTask_body_irq second_edge pressed) =
     [WritePekPressed False, AxpReadIRQ, AxpIsPEKLongtPressIRQ False, AxpClearIRQ,
      WritePekPressed True, VTaskDelay 100] \<and>
   pekPressed (final (PEKTask_body_irq second_edge pressed))"
  by (simp add: PEKTask_body_irq_def during_def interrupts_def handlePMUIRQ_def second_edge_sel
      pressed_def power_on_def new_events_def emit_def Let_def)

text \<open>
  C4, amended. When the Power Task finds \<open>pekPressed\<close> set, the first thing it does is
  store \<open>False\<close> in it; \<^verbatim>\<open>axp.readIRQ()\<close> and the question for the cause come after that
  store, the cause being the controller's answer at that history (\<open>a\<close> and \<open>b\<close> are the
  two calls, each with the handler's store when an edge arrived during it). The task
  stores \<open>False\<close> only that once. At the end of the pass, whatever the cause was and
  whether or not the power-off call came back, the flag is set exactly when the handler
  ran after the store of \<open>False\<close>. When no edge arrives the pass is \<open>PEKTask_body\<close> and
  the flag is \<open>False\<close> at its end.
\<close>

theorem PEKTask_clears_flag_before_query:
  "pekPressed s \<longrightarrow>
     (let r = PEKTask_body_irq env s;
          a = irq_events env (trace s) (WritePekPressed False);
          b = irq_events env (trace s @ a) AxpReadIRQ;
          c = axp_isPEKLongtPressIRQ env (trace s @ a @ b)
      in (\<exists>rest. new_events s r = a @ b @ AxpIsPEKLongtPressIRQ c # rest) \<and>
         hd a = WritePekPressed False \<and> hd b = AxpReadIRQ \<and>
         WritePekPressed False \<notin> set (tl (new_events s r)) \<and>
         pekPressed (final r) = (WritePekPressed True \<in> set (tl (new_events s r))) \<and>
         (pmu_irq env = (\<lambda>_. False) \<longrightarrow>
            r = PEKTask_body env s \<and> \<not> pekPressed (final r)))"
proof
  assume p: "pekPressed s"
  note P = PEK_irq_pass [OF p, of env]
  have h1: "hd (irq_events env (trace s) (WritePekPressed False)) = WritePekPressed False"
    by (simp add: irq_events_def)
  have h2: "hd (irq_events env tr AxpReadIRQ) = AxpReadIRQ" for tr
    by (simp add: irq_events_def)
  show "let r = PEKTask_body_irq env s;
          a = irq_events env (trace s) (WritePekPressed False);
          b = irq_events env (trace s @ a) AxpReadIRQ;
          c = axp_isPEKLongtPressIRQ env (trace s @ a @ b)
      in (\<exists>rest. new_events s r = a @ b @ AxpIsPEKLongtPressIRQ c # rest) \<and>
         hd a = WritePekPressed False \<and> hd b = AxpReadIRQ \<and>
         WritePekPressed False \<notin> set (tl (new_events s r)) \<and>
         pekPressed (final r) = (WritePekPressed True \<in> set (tl (new_events s r))) \<and>
         (pmu_irq env = (\<lambda>_. False) \<longrightarrow>
            r = PEKTask_body env s \<and> \<not> pekPressed (final r))"
    unfolding Let_def by (intro conjI P h1 h2)
qed

theorem PEKTask_clears_flag_before_query_witness:
  "pekPressed pressed \<and> pmu_irq healthy = (\<lambda>_. False) \<and>
   PEKTask_body_irq healthy pressed = PEKTask_body healthy pressed \<and>
   \<not> pekPressed (final (PEKTask_body_irq healthy pressed)) \<and>
   WritePekPressed True \<notin> set (tl (new_events pressed (PEKTask_body_irq healthy pressed))) \<and>
   pekPressed (final (PEKTask_body_irq second_edge pressed)) \<and>
   WritePekPressed True \<in> set (tl (new_events pressed (PEKTask_body_irq second_edge pressed)))"
proof -
  have p: "pekPressed pressed" by (simp add: pressed_def)
  have q: "pmu_irq healthy = (\<lambda>_. False)" by (simp add: healthy_def)
  have e: "new_events pressed (PEKTask_body_irq second_edge pressed) =
     [WritePekPressed False, AxpReadIRQ, AxpIsPEKLongtPressIRQ False, AxpClearIRQ,
      WritePekPressed True, VTaskDelay 100]"
    by (simp add: PEKTask_body_irq_def during_def interrupts_def handlePMUIRQ_def second_edge_sel
      pressed_def power_on_def new_events_def emit_def Let_def)
  from PEKTask_clears_flag_before_query [of pressed healthy, unfolded Let_def] p q
  have h: "PEKTask_body_irq healthy pressed = PEKTask_body healthy pressed"
    "\<not> pekPressed (final (PEKTask_body_irq healthy pressed))"
    "pekPressed (final (PEKTask_body_irq healthy pressed)) =
       (WritePekPressed True \<in> set (tl (new_events pressed (PEKTask_body_irq healthy pressed))))"
    by blast+
  from PEKTask_clears_flag_before_query [of pressed second_edge, unfolded Let_def] p
  have g: "pekPressed (final (PEKTask_body_irq second_edge pressed)) =
       (WritePekPressed True \<in> set (tl (new_events pressed (PEKTask_body_irq second_edge pressed))))"
    by blast
  have g2: "WritePekPressed True \<in> set (tl (new_events pressed (PEKTask_body_irq second_edge pressed)))"
    unfolding e by simp
  show ?thesis using p q h g g2 by blast
qed

text \<open>
  C5. A pass that classifies the press as long issues \<^verbatim>\<open>axp.shutdown()\<close> exactly once.
  Before it come the attempt to take the console lock, one diagnostic line between take and
  give when the lock was obtained (none otherwise), and the 100 ms pause. A pass that
  classifies the press as anything else issues no shutdown, writes nothing and takes no
  lock: after the classification it clears the interrupt source of the chip and goes to the
  100 ms delay of the poll.
\<close>

theorem PEKTask_long_press_shutdown:
  fixes env s
  defines "r \<equiv> PEKTask_body env s"
  defines "classified \<equiv>
    trace s @ [WritePekPressed False, AxpReadIRQ, AxpIsPEKLongtPressIRQ True]"
  defines "taken \<equiv> xSemaphoreTake env classified"
  assumes "pekPressed s"
  shows "(axp_isPEKLongtPressIRQ env (trace s @ [WritePekPressed False, AxpReadIRQ]) \<longrightarrow>
            count_list (new_events s r) AxpShutdown = 1 \<and>
            (\<exists>tail. new_events s r =
               [WritePekPressed False, AxpReadIRQ, AxpIsPEKLongtPressIRQ True, SemTake taken]
               @ (if taken then [SerialPrintln ''Long press detected: Shutting down...'', SemGive]
                  else [])
               @ [VTaskDelay 100, AxpShutdown] @ tail)) \<and>
         (\<not> axp_isPEKLongtPressIRQ env (trace s @ [WritePekPressed False, AxpReadIRQ]) \<longrightarrow>
            r = Normal (final r) \<and>
            new_events s r = [WritePekPressed False, AxpReadIRQ, AxpIsPEKLongtPressIRQ False,
                              AxpClearIRQ, VTaskDelay 100])"
proof (cases "axp_isPEKLongtPressIRQ env (trace s @ [WritePekPressed False, AxpReadIRQ])")
  case True
  show ?thesis
    unfolding r_def PEK_long [OF assms(4) True]
    by (simp add: True new_events_def locked_events_def taken_def classified_def)
next
  case False
  show ?thesis
    unfolding r_def PEK_short [OF assms(4) False]
    by (simp add: False new_events_def)
qed

theorem PEKTask_long_press_shutdown_witness:
  "pekPressed pressed \<and>
   axp_isPEKLongtPressIRQ long_press (trace pressed @ [WritePekPressed False, AxpReadIRQ]) \<and>
   count_list (new_events pressed (PEKTask_body long_press pressed)) AxpShutdown = 1 \<and>
   \<not> axp_isPEKLongtPressIRQ healthy (trace pressed @ [WritePekPressed False, AxpReadIRQ]) \<and>
   new_events pressed (PEKTask_body healthy pressed) =
     [WritePekPressed False, AxpReadIRQ, AxpIsPEKLongtPressIRQ False, AxpClearIRQ,
      VTaskDelay 100]"
  using PEKTask_long_press_shutdown [of pressed long_press]
    PEKTask_long_press_shutdown [of pressed healthy]
  by (simp add: pressed_def power_on_def long_press_def healthy_def)

subsection \<open>Quiet events\<close>

lemma lock_from_simps [simp]:
  "lock_from l [] = l"
  "lock_from l (e # es) = lock_from (lock_step l e) es"
  "lock_from l (es @ fs) = lock_from (lock_from l es) fs"
  by (simp_all add: lock_from_def)

lemma lock_of_from: "lock_of es = lock_from Free es"
  by (simp add: lock_of_def lock_from_def)

lemma lock_from_Broken [simp]: "lock_from Broken es = Broken"
  by (induction es) (simp_all add: lock_step_def)

text \<open>A call that does not return, made while the lock is held, can never be made good.\<close>

lemma lock_free_before_exit:
  assumes "lock_from Free (es @ e # fs) = Free" and "non_returning e"
  shows "lock_from Free es = Free"
proof (cases "lock_from Free es")
  case Free
  then show ?thesis .
next
  case Held
  with assms show ?thesis by (auto simp: non_returning_def lock_step_def)
next
  case Broken
  with assms show ?thesis by (simp add: lock_step_def)
qed

lemma quiet_Nil [simp]: "quiet []"
  by (simp add: quiet_def)

lemma quiet_append [simp]: "quiet es \<Longrightarrow> quiet fs \<Longrightarrow> quiet (es @ fs)"
  by (auto simp: quiet_def)

lemma quiet_Cons:
  "\<not> is_publish e \<Longrightarrow> \<not> is_sleep e \<Longrightarrow> lock_step Free e = Free \<Longrightarrow> quiet es
   \<Longrightarrow> quiet (e # es)"
  by (simp add: quiet_def)

lemma quiet_step:
  "quiet es \<Longrightarrow> \<not> is_publish e \<Longrightarrow> \<not> is_sleep e \<Longrightarrow> lock_step Free e = Free
   \<Longrightarrow> quiet (es @ [e])"
  by (simp add: quiet_def)

lemma quiet_plain:
  "\<forall>e\<in>set es. \<not> is_publish e \<and> \<not> is_sleep e \<and> lock_step Free e = Free \<Longrightarrow> quiet es"
proof (induction es rule: rev_induct)
  case Nil
  then show ?case by simp
next
  case (snoc x xs)
  then show ?case by (simp add: quiet_step)
qed

lemma quiet_locked_prints:
  assumes "\<forall>e\<in>set body. \<exists>m. e = SerialPrint m \<or> e = SerialPrintln m"
  shows "quiet (locked_events taken body)"
proof -
  have "lock_from Held body = Held"
    using assms by (induction body) (auto simp: lock_step_def)
  with assms show ?thesis
    by (auto simp: quiet_def locked_events_def lock_step_def is_publish_def is_sleep_def)
qed

lemma quietD: "quiet es \<Longrightarrow> lock_from Free es = Free"
  and quiet_no_sleep: "quiet es \<Longrightarrow> e \<in> set es \<Longrightarrow> \<not> is_sleep e"
  and quiet_no_publish: "quiet es \<Longrightarrow> e \<in> set es \<Longrightarrow> \<not> is_publish e"
  by (auto simp: quiet_def)

lemma extends_refl [simp]: "extends s s"
  by (simp add: extends_def)

lemma extends_trans: "extends s t \<Longrightarrow> extends t u \<Longrightarrow> extends s u"
  by (auto simp: extends_def)

lemma extends_emits: "quiet es \<Longrightarrow> extends s (emits es s)"
  by (auto simp: extends_def)

lemma extends_emit: "quiet [e] \<Longrightarrow> extends s (emit e s)"
  by (auto simp: extends_def)

lemma extends_emit_after:
  "extends s t \<Longrightarrow> \<not> is_publish e \<Longrightarrow> \<not> is_sleep e \<Longrightarrow> lock_step Free e = Free
   \<Longrightarrow> extends s (emit e t)"
  by (auto simp: extends_def quiet_def)

lemma extends_emits_after: "extends s t \<Longrightarrow> quiet es \<Longrightarrow> extends s (emits es t)"
  by (auto simp: extends_def)

lemma extends_led_after: "extends s t \<Longrightarrow> extends s (t\<lparr>ledState := b\<rparr>)"
  by (auto simp: extends_def)

lemma extendsD:
  assumes "extends s s'"
  obtains es where "trace s' = trace s @ es" "quiet es" "bootCount s' = bootCount s"
  using assms by (auto simp: extends_def)

subsection \<open>The session-reconnect routine\<close>

text \<open>One turn of the loop: return when the session is up, otherwise one \<open>attempt\<close>.\<close>

lemma reconnect_step:
  "reconnectToMQTT (Suc n) env s =
     (if mqtt_connected env (trace s) then Normal (emit (MqttConnected True) s)
      else reconnectToMQTT n env (emits (attempt env (trace s)) s))"
  by (simp add: Let_def serial_locked_def attempt_def locked_events_def emit_def emits_def)

declare reconnectToMQTT.simps(2) [simp del]

lemma quiet_attempt: "quiet (attempt env tr)"
  by (simp add: attempt_def Let_def quiet_Cons quiet_locked_prints is_publish_def is_sleep_def
      lock_step_def)

lemma reconnect_extends: "extends s (final (reconnectToMQTT n env s))"
proof (induction n arbitrary: s)
  case 0
  then show ?case by simp
next
  case (Suc n)
  show ?case
  proof (cases "mqtt_connected env (trace s)")
    case True
    then show ?thesis
      by (simp add: reconnect_step extends_def emit_def is_publish_def is_sleep_def
          lock_step_def quiet_def)
  next
    case False
    have "extends s (emits (attempt env (trace s)) s)"
      by (rule extends_emits) (rule quiet_attempt)
    from extends_trans [OF this Suc.IH] False show ?thesis
      by (simp add: reconnect_step)
  qed
qed

lemma reconnect_not_stopped: "reconnectToMQTT n env s \<noteq> Stopped st s'"
  by (induction n arbitrary: s) (simp_all add: reconnect_step)

lemma reconnect_returns_connected:
  "reconnectToMQTT n env s = Normal s' \<Longrightarrow> \<exists>pre. trace s' = pre @ [MqttConnected True]"
  by (induction n arbitrary: s) (auto simp add: reconnect_step split: if_splits)

lemma attempt_delay:
  "filter is_delay (attempt env tr) =
     replicate (failed_attempts (attempt env tr)) (VTaskDelay 5000)"
  by (simp add: attempt_def Let_def locked_events_def is_delay_def failed_attempts_def)

lemma attempt_failed:
  assumes "MqttConnect False \<in> set (attempt env tr)"
  shows "\<exists>pre taken. attempt env tr =
           pre @ MqttConnect False #
           locked_events taken
             [SerialPrint ''failed, rc='',
              SerialPrint (show_int (mqtt_state env
                 (tr @ pre @ [MqttConnect False, SemTake True, SerialPrint ''failed, rc='']))),
              SerialPrintln '' try again in 5 seconds'']
           @ [VTaskDelay 5000]"
proof -
  let ?a = "MqttConnected False #
              locked_events (xSemaphoreTake env (tr @ [MqttConnected False]))
                [SerialPrint ''Attempting MQTT connection...'']"
  have "\<not> mqtt_connect env (tr @ ?a)"
    using assms
    by (auto simp: attempt_def Let_def locked_events_def split: if_splits)
  then have "attempt env tr =
      ?a @ MqttConnect False #
      locked_events (xSemaphoreTake env (tr @ ?a @ [MqttConnect False]))
        [SerialPrint ''failed, rc='',
         SerialPrint (show_int (mqtt_state env
            (tr @ ?a @ [MqttConnect False, SemTake True, SerialPrint ''failed, rc='']))),
         SerialPrintln '' try again in 5 seconds'']
      @ [VTaskDelay 5000]"
    by (simp add: attempt_def Let_def)
  then show ?thesis by blast
qed

lemma reconnect_delays:
  "\<exists>es. trace (final (reconnectToMQTT n env s)) = trace s @ es \<and>
        filter is_delay es = replicate (failed_attempts es) (VTaskDelay 5000)"
proof (induction n arbitrary: s)
  case 0
  then show ?case by (simp add: failed_attempts_def)
next
  case (Suc n)
  show ?case
  proof (cases "mqtt_connected env (trace s)")
    case True
    then show ?thesis
      by (simp add: reconnect_step is_delay_def failed_attempts_def)
  next
    case False
    from Suc.IH [of "emits (attempt env (trace s)) s"]
    obtain es where
      es: "trace (final (reconnectToMQTT n env (emits (attempt env (trace s)) s)))
             = trace s @ attempt env (trace s) @ es"
      and d: "filter is_delay es = replicate (failed_attempts es) (VTaskDelay 5000)"
      by auto
    show ?thesis
      using False es d
      by (simp add: reconnect_step attempt_delay replicate_add)
  qed
qed

lemma never_up_sel [simp]:
  "mqtt_connected never_up = (\<lambda>_. False)"
  "mqtt_connect never_up = (\<lambda>_. False)"
  "xSemaphoreTake never_up = (\<lambda>_. True)"
  by (simp_all add: never_up_def healthy_def)

lemma broker_down_sel [simp]:
  "mqtt_connected (broker_down k) = (\<lambda>tr. MqttConnect True \<in> set tr)"
  "mqtt_connect (broker_down k) = (\<lambda>tr. k \<le> failed_attempts tr)"
  "mqtt_state (broker_down k) = (\<lambda>_. - 2)"
  "xSemaphoreTake (broker_down k) = (\<lambda>_. True)"
  by (simp_all add: broker_down_def healthy_def)

lemma emits_emits: "emits es (emits fs s) = emits (fs @ es) s"
  by (simp add: emits_def)

lemma emit_emits: "emit e (emits fs s) = emits (fs @ [e]) s"
  by (simp add: emits_def emit_def)

text \<open>A broker that never accepts: every unit of fuel buys one more failure and one more
  wait of 5000 ms, and the routine does not return.\<close>

lemma never_up_runs_out:
  "\<exists>es. reconnectToMQTT n never_up s = OutOfFuel (emits es s) \<and> failed_attempts es = n
      \<and> filter is_delay es = replicate n (VTaskDelay 5000)"
proof (induction n arbitrary: s)
  case 0
  have "s = emits [] s" by (simp add: emits_def)
  then show ?case by (auto simp: failed_attempts_def intro!: exI [of _ "[]"])
next
  case (Suc n)
  let ?a = "attempt never_up (trace s)"
  from Suc.IH [of "emits ?a s"] obtain es where
    r: "reconnectToMQTT n never_up (emits ?a s) = OutOfFuel (emits es (emits ?a s))"
    and f: "failed_attempts es = n"
    and d: "filter is_delay es = replicate n (VTaskDelay 5000)"
    by auto
  have a1: "failed_attempts ?a = 1"
    by (simp add: attempt_def Let_def locked_events_def failed_attempts_def)
  have "reconnectToMQTT (Suc n) never_up s = OutOfFuel (emits (?a @ es) s)"
    using r by (simp add: reconnect_step emits_emits)
  moreover have "failed_attempts (?a @ es) = Suc n"
    using a1 f by simp
  moreover have "filter is_delay (?a @ es) = replicate (Suc n) (VTaskDelay 5000)"
    using a1 d attempt_delay [of never_up "trace s"] by simp
  ultimately show ?case by blast
qed

lemma broker_down_attempt_fail:
  assumes "failed_attempts tr < k"
  shows "attempt (broker_down k) tr =
           [MqttConnected False, SemTake True, SerialPrint ''Attempting MQTT connection...'',
            SemGive, MqttConnect False, SemTake True, SerialPrint ''failed, rc='',
            SerialPrint ''-2'', SerialPrintln '' try again in 5 seconds'', SemGive,
            VTaskDelay 5000]"
  using assms
  by (simp add: attempt_def Let_def locked_events_def failed_attempts_def
      show_int_def dec_digit digit_char_def)

lemma broker_down_attempt_ok:
  assumes "k \<le> failed_attempts tr"
  shows "attempt (broker_down k) tr =
           [MqttConnected False, SemTake True, SerialPrint ''Attempting MQTT connection...'',
            SemGive, MqttConnect True, SemTake True, SerialPrintln ''connected'', SemGive]"
  using assms
  by (simp add: attempt_def Let_def locked_events_def failed_attempts_def)

text \<open>A broker that refuses \<open>j\<close> more times: the routine returns after exactly \<open>j\<close>
  waits, however large \<open>j\<close> is.\<close>

lemma broker_down_reconnects:
  assumes "failed_attempts (trace s) + j = k" and "MqttConnect True \<notin> set (trace s)"
  shows "\<exists>es. reconnectToMQTT (j + 2) (broker_down k) s = Normal (emits es s) \<and>
              failed_attempts es = j \<and> filter is_delay es = replicate j (VTaskDelay 5000)"
  using assms
proof (induction j arbitrary: s)
  case 0
  let ?a = "attempt (broker_down k) (trace s)"
  have a: "?a = [MqttConnected False, SemTake True,
                 SerialPrint ''Attempting MQTT connection...'', SemGive,
                 MqttConnect True, SemTake True, SerialPrintln ''connected'', SemGive]"
    using 0 by (intro broker_down_attempt_ok) simp
  have "reconnectToMQTT (0 + 2) (broker_down k) s = Normal (emits (?a @ [MqttConnected True]) s)"
    using 0(2) by (simp add: numeral_2_eq_2 reconnect_step a emit_emits)
  moreover have "failed_attempts (?a @ [MqttConnected True]) = 0"
    unfolding a by (simp add: failed_attempts_def)
  moreover have "filter is_delay (?a @ [MqttConnected True]) = replicate 0 (VTaskDelay 5000)"
    unfolding a by (simp add: is_delay_def)
  ultimately show ?case by blast
next
  case (Suc j)
  let ?a = "attempt (broker_down k) (trace s)"
  have a: "?a = [MqttConnected False, SemTake True,
                 SerialPrint ''Attempting MQTT connection...'', SemGive,
                 MqttConnect False, SemTake True, SerialPrint ''failed, rc='',
                 SerialPrint ''-2'', SerialPrintln '' try again in 5 seconds'', SemGive,
                 VTaskDelay 5000]"
    using Suc.prems by (intro broker_down_attempt_fail) simp
  have "failed_attempts (trace (emits ?a s)) + j = k"
    using Suc.prems(1) unfolding a by (simp add: failed_attempts_def)
  moreover have "MqttConnect True \<notin> set (trace (emits ?a s))"
    using Suc.prems(2) unfolding a by simp
  ultimately obtain es where
    r: "reconnectToMQTT (j + 2) (broker_down k) (emits ?a s) = Normal (emits es (emits ?a s))"
    and f: "failed_attempts es = j"
    and d: "filter is_delay es = replicate j (VTaskDelay 5000)"
    using Suc.IH [of "emits ?a s"] by blast
  have "reconnectToMQTT (Suc (j + 2)) (broker_down k) s =
          reconnectToMQTT (j + 2) (broker_down k) (emits ?a s)"
    using Suc.prems(2) by (subst reconnect_step) simp
  with r have "reconnectToMQTT (Suc j + 2) (broker_down k) s = Normal (emits (?a @ es) s)"
    by (simp add: emits_emits)
  moreover have "failed_attempts (?a @ es) = Suc j"
    using f unfolding a by (simp add: failed_attempts_def)
  moreover have "filter is_delay (?a @ es) = replicate (Suc j) (VTaskDelay 5000)"
    using d unfolding a by (simp add: is_delay_def)
  ultimately show ?case by blast
qed

subsection \<open>The network loop of the Telemetry Task\<close>

lemma wifi_step:
  "wifi_wait (Suc n) env s =
     (if wifi_connected env (trace s) then Normal (emit (WiFiStatus True) s)
      else wifi_wait n env
             (emits (wifi_round env (trace s) (ledState s)) (s\<lparr>ledState := \<not> ledState s\<rparr>)))"
  by (simp add: Let_def serial_locked_def wifi_round_def locked_events_def emit_def emits_def)

declare wifi_wait.simps(2) [simp del]

lemma quiet_wifi_round: "quiet (wifi_round env tr led)"
  by (simp add: wifi_round_def quiet_Cons quiet_locked_prints is_publish_def is_sleep_def
      lock_step_def)

lemma wifi_wait_extends: "extends s (final (wifi_wait n env s))"
proof (induction n arbitrary: s)
  case 0
  then show ?case by simp
next
  case (Suc n)
  show ?case
  proof (cases "wifi_connected env (trace s)")
    case True
    then show ?thesis
      by (simp add: wifi_step extends_def is_publish_def is_sleep_def lock_step_def quiet_def)
  next
    case False
    have "extends s (emits (wifi_round env (trace s) (ledState s))
                       (s\<lparr>ledState := \<not> ledState s\<rparr>))"
      using quiet_wifi_round by (auto simp: extends_def)
    from extends_trans [OF this Suc.IH] False show ?thesis
      by (simp add: wifi_step)
  qed
qed

lemma wifi_wait_not_stopped: "wifi_wait n env s \<noteq> Stopped st s'"
  by (induction n arbitrary: s) (simp_all add: wifi_step)

lemma wifi_reconnect_extends: "extends s (final (wifi_reconnect n env s))"
proof -
  let ?s2 = "emits [Call ''WiFi.mode'', Call ''WiFi.disconnect'', VTaskDelay 100,
                    Call ''WiFi.begin'']
               (serial_locked env
                  (emits [SerialPrint ''Connecting to WIFI SSID '', SerialPrintln ssid]) s)"
  have 1: "extends s ?s2"
    by (simp add: extends_def serial_locked_def Let_def quiet_def is_publish_def is_sleep_def
        lock_step_def)
  have 2: "extends ?s2 (final (wifi_wait n env ?s2))"
    by (rule wifi_wait_extends)
  show ?thesis
  proof (cases "wifi_wait n env ?s2")
    case (Normal s3)
    have "extends s3 (final (wifi_reconnect n env s))"
      using Normal
      by (simp add: wifi_reconnect_def Let_def extends_def serial_locked_def quiet_def
          is_publish_def is_sleep_def lock_step_def)
    with extends_trans [OF 1 2] Normal show ?thesis
      by (auto intro: extends_trans)
  next
    case (Stopped st s3)
    with wifi_wait_not_stopped show ?thesis by blast
  next
    case (OutOfFuel s3)
    with extends_trans [OF 1 2] show ?thesis
      by (simp add: wifi_reconnect_def Let_def)
  qed
qed

lemma wifi_reconnect_not_stopped: "wifi_reconnect n env s \<noteq> Stopped st s'"
  using wifi_wait_not_stopped
  by (auto simp: wifi_reconnect_def Let_def and_then_def split: result.splits)

subsection \<open>The retry discipline of the session-reconnect routine\<close>

lemma broker_down_once:
  "reconnectToMQTT 3 (broker_down (Suc 0)) power_on =
     Normal (emits
       [MqttConnected False, SemTake True, SerialPrint ''Attempting MQTT connection...'',
        SemGive, MqttConnect False, SemTake True, SerialPrint ''failed, rc='',
        SerialPrint ''-2'', SerialPrintln '' try again in 5 seconds'', SemGive,
        VTaskDelay 5000,
        MqttConnected False, SemTake True, SerialPrint ''Attempting MQTT connection...'',
        SemGive, MqttConnect True, SemTake True, SerialPrintln ''connected'', SemGive,
        MqttConnected True] power_on)"
proof -
  have 1: "attempt (broker_down (Suc 0)) [] =
       [MqttConnected False, SemTake True, SerialPrint ''Attempting MQTT connection...'',
        SemGive, MqttConnect False, SemTake True, SerialPrint ''failed, rc='',
        SerialPrint ''-2'', SerialPrintln '' try again in 5 seconds'', SemGive,
        VTaskDelay 5000]" (is "_ = ?a")
    by (rule broker_down_attempt_fail) (simp add: failed_attempts_def)
  have 2: "attempt (broker_down (Suc 0)) ?a =
       [MqttConnected False, SemTake True, SerialPrint ''Attempting MQTT connection...'',
        SemGive, MqttConnect True, SemTake True, SerialPrintln ''connected'', SemGive]"
    by (rule broker_down_attempt_ok) (simp add: failed_attempts_def)
  have t: "trace power_on = []" by (simp add: power_on_def)
  show ?thesis
    by (simp add: numeral_3_eq_3 reconnect_step t 1 2 emits_emits emit_emits)
qed

text \<open>
  C7. \<^verbatim>\<open>reconnectToMQTT\<close> makes no call that does not return, and when it returns the
  last thing it did was ask \<^verbatim>\<open>mqttClient.connected()\<close> and hear yes. A turn of the loop
  that finds the session down is one \<open>attempt\<close> followed by the next turn. An attempt in
  which \<^verbatim>\<open>connect\<close> fails ends, after the failure, with the guarded log line that
  carries \<^verbatim>\<open>mqttClient.state()\<close> and then with \<^verbatim>\<open>vTaskDelay\<close> of 5000 ms. In every
  run the delays are all of 5000 ms, one for each failed attempt. There is no bound on the
  attempts: against a broker that never accepts, fuel \<open>n\<close> is used up by \<open>n\<close>
  failures and \<open>n\<close> waits without a return, and against a broker that refuses \<open>k\<close>
  times the routine returns after exactly \<open>k\<close> waits, for every \<open>k\<close>.
\<close>

theorem reconnectToMQTT_fixed_retry:
  "(\<forall>st s'. reconnectToMQTT n env s \<noteq> Stopped st s') \<and>
   (\<forall>s'. reconnectToMQTT n env s = Normal s' \<longrightarrow> (\<exists>pre. trace s' = pre @ [MqttConnected True])) \<and>
   (\<not> mqtt_connected env (trace s) \<longrightarrow>
      reconnectToMQTT (Suc n) env s = reconnectToMQTT n env (emits (attempt env (trace s)) s)) \<and>
   (MqttConnect False \<in> set (attempt env tr) \<longrightarrow>
      (\<exists>pre taken. attempt env tr =
         pre @ MqttConnect False #
         locked_events taken
           [SerialPrint ''failed, rc='',
            SerialPrint (show_int (mqtt_state env
               (tr @ pre @ [MqttConnect False, SemTake True, SerialPrint ''failed, rc='']))),
            SerialPrintln '' try again in 5 seconds'']
         @ [VTaskDelay 5000])) \<and>
   filter is_delay (new_events s (reconnectToMQTT n env s)) =
     replicate (failed_attempts (new_events s (reconnectToMQTT n env s))) (VTaskDelay 5000) \<and>
   (\<exists>es. reconnectToMQTT n never_up s = OutOfFuel (emits es s) \<and> failed_attempts es = n \<and>
         filter is_delay es = replicate n (VTaskDelay 5000)) \<and>
   (\<exists>es. reconnectToMQTT (k + 2) (broker_down k) power_on = Normal (emits es power_on) \<and>
         failed_attempts es = k \<and> filter is_delay es = replicate k (VTaskDelay 5000))"
proof (intro conjI allI impI)
  show "reconnectToMQTT n env s \<noteq> Stopped st s'" for st s'
    by (rule reconnect_not_stopped)
  show "\<exists>pre. trace s' = pre @ [MqttConnected True]" if "reconnectToMQTT n env s = Normal s'" for s'
    using that by (rule reconnect_returns_connected)
  show "reconnectToMQTT (Suc n) env s = reconnectToMQTT n env (emits (attempt env (trace s)) s)"
    if "\<not> mqtt_connected env (trace s)"
    using that by (simp add: reconnect_step)
  show "\<exists>pre taken. attempt env tr =
         pre @ MqttConnect False #
         locked_events taken
           [SerialPrint ''failed, rc='',
            SerialPrint (show_int (mqtt_state env
               (tr @ pre @ [MqttConnect False, SemTake True, SerialPrint ''failed, rc='']))),
            SerialPrintln '' try again in 5 seconds'']
         @ [VTaskDelay 5000]"
    if "MqttConnect False \<in> set (attempt env tr)"
    using that by (rule attempt_failed)
  show "filter is_delay (new_events s (reconnectToMQTT n env s)) =
     replicate (failed_attempts (new_events s (reconnectToMQTT n env s))) (VTaskDelay 5000)"
    using reconnect_delays [of n env s] by auto
  show "\<exists>es. reconnectToMQTT n never_up s = OutOfFuel (emits es s) \<and> failed_attempts es = n \<and>
         filter is_delay es = replicate n (VTaskDelay 5000)"
    by (rule never_up_runs_out)
  show "\<exists>es. reconnectToMQTT (k + 2) (broker_down k) power_on = Normal (emits es power_on) \<and>
         failed_attempts es = k \<and> filter is_delay es = replicate k (VTaskDelay 5000)"
    by (rule broker_down_reconnects) (simp_all add: power_on_def failed_attempts_def)
qed

theorem reconnectToMQTT_fixed_retry_witness:
  "\<not> mqtt_connected (broker_down (Suc 0)) (trace power_on) \<and>
   MqttConnect False \<in> set (attempt (broker_down (Suc 0)) (trace power_on)) \<and>
   (\<exists>s' pre. reconnectToMQTT 3 (broker_down (Suc 0)) power_on = Normal s' \<and>
      trace s' = pre @ [MqttConnected True]) \<and>
   filter is_delay (new_events power_on (reconnectToMQTT 3 (broker_down (Suc 0)) power_on)) =
     [VTaskDelay 5000]"
proof -
  note T = reconnectToMQTT_fixed_retry
    [of 3 "broker_down (Suc 0)" power_on "trace power_on" "Suc 0"]
  have run: "reconnectToMQTT 3 (broker_down (Suc 0)) power_on =
             Normal (final (reconnectToMQTT 3 (broker_down (Suc 0)) power_on))"
    by (simp add: broker_down_once)
  have a: "attempt (broker_down (Suc 0)) (trace power_on) =
      [MqttConnected False, SemTake True, SerialPrint ''Attempting MQTT connection...'',
       SemGive, MqttConnect False, SemTake True, SerialPrint ''failed, rc='',
       SerialPrint ''-2'', SerialPrintln '' try again in 5 seconds'', SemGive,
       VTaskDelay 5000]"
    by (rule broker_down_attempt_fail) (simp add: power_on_def failed_attempts_def)
  have 1: "\<not> mqtt_connected (broker_down (Suc 0)) (trace power_on)"
    by (simp add: power_on_def)
  have 2: "MqttConnect False \<in> set (attempt (broker_down (Suc 0)) (trace power_on))"
    by (simp add: a)
  from T run have 3: "\<exists>s' pre. reconnectToMQTT 3 (broker_down (Suc 0)) power_on = Normal s' \<and>
      trace s' = pre @ [MqttConnected True]"
    by blast
  have "failed_attempts (new_events power_on (reconnectToMQTT 3 (broker_down (Suc 0)) power_on))
        = 1"
    by (simp add: broker_down_once failed_attempts_def)
  with T have 4: "filter is_delay
      (new_events power_on (reconnectToMQTT 3 (broker_down (Suc 0)) power_on)) =
     [VTaskDelay 5000]"
    by simp
  from 1 2 3 4 show ?thesis by blast
qed


subsection \<open>Sampling and publishing\<close>

lemma sample_eq:
  "sample env s =
     (let t = 1000 + random_source env (trace s) mod 3500;
          m = random_source env (trace s @ [Random 1000 4500 t]) mod 10000;
          v = batt_voltage env (trace s @ [Random 1000 4500 t, Random 0 10000 m])
      in ((t, m, v), emits [Random 1000 4500 t, Random 0 10000 m, AxpGetBattVoltage v] s))"
  by (simp add: sample_def random_def Let_def emit_def emits_def)

lemma quiet_sample_events: "quiet [Random a b c, Random d e f, AxpGetBattVoltage v]"
  by (simp add: quiet_def is_publish_def is_sleep_def lock_step_def)

lemma sample_extends: "sample env s = (x, s1) \<Longrightarrow> extends s s1"
  by (auto simp: sample_eq Let_def intro!: extends_emits quiet_sample_events)

lemma mqtt_pub_eq:
  assumes "sample env s = ((t, m, v), s1)" and "dataStr (bootCount s) t m v = Some str"
  shows "mqtt_pub env s =
     (if mqtt_publish env (trace s1) then
        Stopped DeepSleep
          (emits (sleep_events str
                    (xSemaphoreTake env (trace s1 @ [MqttPublish mqttTopicPub str True])))
             (s1\<lparr>bootCount := bootCount s + 1\<rparr>))
      else
        Normal
          (emits (MqttPublish mqttTopicPub str False #
                  locked_events
                    (xSemaphoreTake env (trace s1 @ [MqttPublish mqttTopicPub str False]))
                    [SerialPrintln ''Failed to publish data''])
             s1))"
proof -
  have b: "bootCount s1 = bootCount s"
    using assms(1) by (auto simp: sample_eq Let_def)
  show ?thesis
    using assms(2)
    by (simp add: mqtt_pub_def assms(1) b Let_def serial_locked_def esp_deep_sleep_start_def
        sleep_events_def locked_events_def emit_def emits_def)
qed

text \<open>The format string and its arguments fit: \<^verbatim>\<open>sprintf\<close> is always defined.\<close>

lemma mqtt_pub_defined: "mqtt_pub env s \<noteq> Stopped Undefined s'"
proof -
  obtain t m v s1 where sm: "sample env s = ((t, m, v), s1)"
    by (metis prod_cases3 surj_pair)
  obtain str where str: "dataStr (bootCount s) t m v = Some str"
    using dataStr_Some by blast
  show ?thesis
    unfolding mqtt_pub_eq [OF sm str] by simp
qed

lemma lock_sleep_events [simp]: "lock_from Free (sleep_events str taken) = Free"
  by (simp add: sleep_events_def locked_events_def lock_step_def)

lemma lock_failure_events [simp]: "lock_from Free (failure_events str taken) = Free"
  by (simp add: failure_events_def locked_events_def lock_step_def)

lemma no_sleep_failure_events: "e \<in> set (failure_events str taken) \<Longrightarrow> \<not> is_sleep e"
  by (auto simp: failure_events_def locked_events_def is_sleep_def split: if_splits)

subsection \<open>One pass of the Telemetry Task\<close>

text \<open>
  A pass ends in one of three ways: it never reaches the publish call (\<open>idle\<close>), the
  publish succeeds (\<open>sleep\<close>), or the publish fails (\<open>failed\<close>). What comes before
  the publish call is quiet.
\<close>

lemma MQTTTask_body_cases:
  fixes n env s
  defines "r \<equiv> MQTTTask_body n env s"
  obtains
    (idle) pre where "quiet pre" "trace (final r) = trace s @ pre"
      "bootCount (final r) = bootCount s" "\<forall>st s'. r \<noteq> Stopped st s'"
  | (sleep) pre t m v str taken s' where "quiet pre" "r = Stopped DeepSleep s'"
      "bootCount s' = bootCount s + 1" "dataStr (bootCount s) t m v = Some str"
      "trace s' = trace s @ pre @ sleep_events str taken"
  | (failed) pre t m v str taken s' where "quiet pre" "r = Normal s'"
      "bootCount s' = bootCount s" "dataStr (bootCount s) t m v = Some str"
      "trace s' = trace s @ pre @ failure_events str taken"
      "taken = xSemaphoreTake env (trace s @ pre @ [MqttPublish mqttTopicPub str False])"
proof -
  define c where "c = mqtt_connected env (trace s @ [Call ''ArduinoOTA.handle''])"
  define s2 where "s2 = emits [Call ''ArduinoOTA.handle'', MqttConnected c] s"
  define r1 where "r1 = (if \<not> c then reconnectToMQTT n env s2 else Normal s2)"
  define tail where "tail = (\<lambda>s3.
           let s4 = emit MqttLoop s3;
               wifi = wifi_connected env (trace s4);
               s5 = emit (WiFiStatus wifi) s4
           in and_then (if \<not> wifi then wifi_reconnect n env s5 else mqtt_pub env s5) (\<lambda>s6.
                Normal (emit (VTaskDelay 100) s6)))"
  have r: "r = and_then r1 tail"
    by (simp add: r_def MQTTTask_body_def Let_def c_def s2_def r1_def tail_def emit_def
        emits_def)
  have e2: "extends s s2"
    unfolding s2_def
    by (intro extends_emits) (simp add: quiet_def is_publish_def is_sleep_def lock_step_def)
  have e1: "extends s2 (final r1)"
    by (simp add: r1_def reconnect_extends)
  have n1: "r1 \<noteq> Stopped st s'" for st s'
    by (simp add: r1_def reconnect_not_stopped)
  show thesis
  proof (cases r1)
    case (Stopped st s')
    with n1 [of st s'] show ?thesis by simp
  next
    case (OutOfFuel s3)
    with e1 e2 have "extends s s3" by (auto intro: extends_trans)
    then obtain pre where "trace s3 = trace s @ pre" "quiet pre" "bootCount s3 = bootCount s"
      by (rule extendsD)
    with OutOfFuel r show ?thesis by (intro idle [of pre]) simp_all
  next
    case (Normal s3)
    with e1 e2 have e3: "extends s s3" by (auto intro: extends_trans)
    define w where "w = wifi_connected env (trace s3 @ [MqttLoop])"
    define s5 where "s5 = emits [MqttLoop, WiFiStatus w] s3"
    have e5: "extends s s5"
      unfolding s5_def
      by (intro extends_trans [OF e3] extends_emits)
        (simp add: quiet_def is_publish_def is_sleep_def lock_step_def)
    have r': "r = and_then (if \<not> w then wifi_reconnect n env s5 else mqtt_pub env s5)
                    (\<lambda>s6. Normal (emit (VTaskDelay 100) s6))"
      by (simp add: r Normal tail_def Let_def w_def s5_def emit_def emits_def)
    show ?thesis
    proof (cases w)
      case False
      have ew: "extends s5 (final (wifi_reconnect n env s5))"
        by (rule wifi_reconnect_extends)
      have "extends s (final r) \<and> (\<forall>st s'. r \<noteq> Stopped st s')"
      proof (cases "wifi_reconnect n env s5")
        case (Normal s6)
        have "extends s6 (emit (VTaskDelay 100) s6)"
          by (intro extends_emit) (simp add: quiet_def is_publish_def is_sleep_def lock_step_def)
        with ew e5 Normal False r' show ?thesis
          by (auto intro: extends_trans)
      next
        case (Stopped st s')
        with wifi_reconnect_not_stopped show ?thesis by blast
      next
        case (OutOfFuel s6)
        with ew e5 False r' show ?thesis
          by (auto intro: extends_trans)
      qed
      then obtain pre where "trace (final r) = trace s @ pre" "quiet pre"
        "bootCount (final r) = bootCount s" "\<forall>st s'. r \<noteq> Stopped st s'"
        by (auto elim: extendsD)
      then show ?thesis by (intro idle [of pre]) simp_all
    next
      case True
      obtain t m v s1 where sm: "sample env s5 = ((t, m, v), s1)"
        by (metis prod_cases3 surj_pair)
      obtain str where str: "dataStr (bootCount s5) t m v = Some str"
        using dataStr_Some by blast
      have "extends s5 s1" using sm by (rule sample_extends)
      with e5 have "extends s s1" by (rule extends_trans)
      then obtain pre where
        pre: "trace s1 = trace s @ pre" "quiet pre" "bootCount s1 = bootCount s"
        by (rule extendsD)
      have b5: "bootCount s5 = bootCount s"
        using e5 by (simp add: extends_def)
      show ?thesis
      proof (cases "mqtt_publish env (trace s1)")
        case ok: True
        define taken where
          "taken = xSemaphoreTake env (trace s1 @ [MqttPublish mqttTopicPub str True])"
        define s' where
          "s' = emits (sleep_events str taken) (s1\<lparr>bootCount := bootCount s5 + 1\<rparr>)"
        have "r = Stopped DeepSleep s'"
          using ok True by (simp add: r' mqtt_pub_eq [OF sm str] s'_def taken_def)
        moreover have "bootCount s' = bootCount s + 1"
          by (simp add: s'_def b5)
        moreover have "trace s' = trace s @ pre @ sleep_events str taken"
          by (simp add: s'_def pre(1))
        ultimately show ?thesis
          using pre(2) str b5 by (intro sleep [of pre s' t m v str taken]) simp_all
      next
        case ko: False
        define taken where
          "taken = xSemaphoreTake env (trace s1 @ [MqttPublish mqttTopicPub str False])"
        define s' where "s' = emits (failure_events str taken) s1"
        have "r = Normal s'"
          using ko True
          by (simp add: r' mqtt_pub_eq [OF sm str] s'_def taken_def failure_events_def emit_def
              emits_def)
        moreover have "bootCount s' = bootCount s"
          by (simp add: s'_def pre(3))
        moreover have "trace s' = trace s @ pre @ failure_events str taken"
          by (simp add: s'_def pre(1))
        moreover have
          "taken = xSemaphoreTake env (trace s @ pre @ [MqttPublish mqttTopicPub str False])"
          by (simp add: taken_def pre(1))
        ultimately show ?thesis
          using pre(2) str b5 by (intro failed [of pre s' t m v str taken]) simp_all
      qed
    qed
  qed
qed

subsection \<open>The Telemetry Task\<close>

lemma task_run_prepend:
  assumes "task_run s1 r es" and "trace s1 = trace s @ pre" and "bootCount s1 = bootCount s"
    and "lock_from Free pre = Free" and "\<forall>e\<in>set pre. \<not> is_sleep e"
  shows "task_run s r (pre @ es)"
proof (cases r)
  case (Normal x)
  with assms(1) show ?thesis by (simp add: task_run_def)
next
  case (OutOfFuel x)
  with assms show ?thesis by (auto simp: task_run_def)
next
  case (Stopped st x)
  with assms(1) obtain p str taken where
    "es = p @ sleep_events str taken" "\<forall>e\<in>set p. \<not> is_sleep e"
    by (auto simp: task_run_def)
  then have "\<exists>q str taken. pre @ es = q @ sleep_events str taken \<and> (\<forall>e\<in>set q. \<not> is_sleep e)"
    using assms(5) by (intro exI [of _ "pre @ p"] exI [of _ str] exI [of _ taken]) auto
  with Stopped assms show ?thesis
    by (simp add: task_run_def)
qed

lemma MQTTTask_run: "\<exists>es. task_run s (MQTTTask n env s) es"
proof (induction n arbitrary: s)
  case 0
  show ?case by (simp add: task_run_def)
next
  case (Suc n)
  show ?case
  proof (cases n env s rule: MQTTTask_body_cases)
    case (idle pre)
    show ?thesis
    proof (cases "MQTTTask_body n env s")
      case (Normal s1)
      from Suc.IH [of s1] obtain es where h: "task_run s1 (MQTTTask n env s1) es" ..
      have "task_run s (MQTTTask n env s1) (pre @ es)"
        by (rule task_run_prepend [OF h])
          (use idle Normal in \<open>auto dest: quietD quiet_no_sleep\<close>)
      with Normal show ?thesis by auto
    next
      case (Stopped st s1)
      with idle show ?thesis by simp
    next
      case (OutOfFuel s1)
      with idle have "task_run s (MQTTTask (Suc n) env s) pre"
        by (auto simp: task_run_def dest: quietD quiet_no_sleep)
      then show ?thesis ..
    qed
  next
    case (sleep pre t m v str taken s')
    have "\<exists>q str' taken'. pre @ sleep_events str taken = q @ sleep_events str' taken' \<and>
            (\<forall>e\<in>set q. \<not> is_sleep e)"
      using quiet_no_sleep [OF sleep(1)] by blast
    then have "task_run s (MQTTTask (Suc n) env s) (pre @ sleep_events str taken)"
      using sleep(2,3,5) by (simp add: task_run_def quietD [OF sleep(1)])
    then show ?thesis ..
  next
    case (failed pre t m v str taken s')
    from Suc.IH [of s'] obtain es where h: "task_run s' (MQTTTask n env s') es" ..
    have "task_run s (MQTTTask n env s') ((pre @ failure_events str taken) @ es)"
      by (rule task_run_prepend [OF h])
        (use failed(3,5) quiet_no_sleep [OF failed(1)] in
          \<open>auto simp: quietD [OF failed(1)] dest: no_sleep_failure_events\<close>)
    with failed show ?thesis by auto
  qed
qed

subsection \<open>Bootstrap\<close>

lemma wifi_wait_setup_extends:
  "extends s (final (wifi_wait_setup n env s)) \<and>
   wifi_wait_setup n env s \<noteq> Stopped DeepSleep s'"
proof (induction n arbitrary: s)
  case 0
  then show ?case by simp
next
  case (Suc n)
  have step: "extends s t \<Longrightarrow>
      extends s (final (wifi_wait_setup n env t)) \<and>
      wifi_wait_setup n env t \<noteq> Stopped DeepSleep s'" for t
    using Suc.IH [of t] by (auto intro: extends_trans)
  show ?case
    by (simp add: Let_def axp_shutdown_def)
      (intro conjI impI step extends_emit_after extends_emits_after extends_led_after
        extends_refl quiet_plain;
        simp add: is_publish_def is_sleep_def lock_step_def)
qed

text \<open>Without the chip \<^verbatim>\<open>setup\<close> stays in \<^verbatim>\<open>while(1);\<close> whatever the fuel.\<close>

lemma setup_no_pmu:
  assumes "axp_begin env (trace s @ [Call ''Serial.begin'',
             SerialPrintln ''Soil Quality Sensor Beta'', Call ''Wire.begin'']) \<noteq> 0"
  shows "setup_fn n env s =
           OutOfFuel (emits [Call ''Serial.begin'', SerialPrintln ''Soil Quality Sensor Beta'',
                             Call ''Wire.begin'',
                             AxpBegin (axp_begin env (trace s @ [Call ''Serial.begin'',
                               SerialPrintln ''Soil Quality Sensor Beta'', Call ''Wire.begin''])),
                             SerialPrintln ''AXP192 not detected!''] s)"
  using assms by (simp add: setup_fn_def Let_def emit_def emits_def)

lemma setup_with_pmu:
  assumes "axp_begin env (trace s @ [Call ''Serial.begin'',
             SerialPrintln ''Soil Quality Sensor Beta'', Call ''Wire.begin'']) = 0"
  shows "\<exists>es f. quiet es \<and>
           setup_fn n env s =
             and_then (wifi_wait_setup n env (emits es s)) (\<lambda>t. Normal (f t)) \<and>
           (\<forall>t. extends t (f t))"
proof -
  let ?es = "[Call ''Serial.begin'', SerialPrintln ''Soil Quality Sensor Beta'',
              Call ''Wire.begin'', AxpBegin 0, SerialPrintln ''AXP192 detected'',
              Call ''axp.setPowerOutPut(AXP192_LDO2, AXP202_OFF)'',
              Call ''axp.setPowerOutPut(AXP192_LDO3, AXP202_OFF)'',
              SerialPrintln ''GPS and LoRa powered off'',
              Call ''axp.adc1Enable'', Call ''pinMode(PMU_IRQ_PIN, INPUT)'',
              AxpClearIRQ, Call ''axp.enableIRQ'', Call ''attachInterrupt'',
              Call ''pinMode(LED_PIN, OUTPUT)'', DigitalWrite LED_PIN (ledState s),
              Call ''esp_sleep_enable_ext0_wakeup'',
              SerialPrint ''Connecting to WIFI SSID '', SerialPrintln ssid,
              Call ''WiFi.mode'', Call ''WiFi.disconnect'', Delay 100, Call ''WiFi.begin'']"
  let ?f = "\<lambda>s4. let s5 = emits [SerialPrintln [],
                                SerialPrint ''WiFi connected, IP address: ''] s4;
                    s6 = emit (SerialPrintln (wifi_localIP env (trace s5))) s5;
                    s7 = (if ledState s6 then emit (DigitalWrite LED_PIN False) s6 else s6);
                    s8 = setupOTA s7
                in emits [Call ''secureClient.setCACert'', Call ''mqttClient.setServer'',
                          Call ''xSemaphoreCreateMutex'',
                          TaskCreate ''MQTTTask'' 1, TaskCreate ''PEKTask'' 0] s8"
  have a: "quiet ?es"
    by (rule quiet_plain) (simp add: is_publish_def is_sleep_def lock_step_def)
  have b: "setup_fn n env s =
             and_then (wifi_wait_setup n env (emits ?es s)) (\<lambda>t. Normal (?f t))"
    using assms by (simp add: setup_fn_def Let_def emit_def emits_def)
  have c: "extends t (?f t)" for t
    by (simp add: Let_def setupOTA_def extends_def quiet_def is_publish_def is_sleep_def
        lock_step_def)
  show ?thesis
    by (rule exI [of _ ?es], rule exI [of _ ?f]) (intro conjI allI a b c)
qed

lemma setup_extends:
  "extends s (final (setup_fn n env s)) \<and> setup_fn n env s \<noteq> Stopped DeepSleep s'"
proof (cases "axp_begin env (trace s @ [Call ''Serial.begin'',
                SerialPrintln ''Soil Quality Sensor Beta'', Call ''Wire.begin'']) = 0")
  case False
  show ?thesis
    unfolding setup_no_pmu [OF False]
    by (simp, intro extends_emits quiet_plain)
      (simp add: is_publish_def is_sleep_def lock_step_def)
next
  case True
  from setup_with_pmu [OF True, of n] obtain es f where q: "quiet es"
    and eq: "setup_fn n env s =
               and_then (wifi_wait_setup n env (emits es s)) (\<lambda>t. Normal (f t))"
    and f: "\<And>t. extends t (f t)"
    by blast
  have 1: "extends s (emits es s)" using q by (rule extends_emits)
  from wifi_wait_setup_extends [of "emits es s" n env s']
  have 2: "extends (emits es s) (final (wifi_wait_setup n env (emits es s)))"
    and 3: "wifi_wait_setup n env (emits es s) \<noteq> Stopped DeepSleep s'"
    by auto
  show ?thesis
  proof (cases "wifi_wait_setup n env (emits es s)")
    case (Normal t)
    with 1 2 f [of t] show ?thesis
      by (auto simp: eq intro: extends_trans)
  next
    case (Stopped st t)
    with 1 2 3 show ?thesis by (auto simp: eq intro: extends_trans)
  next
    case (OutOfFuel t)
    with 1 2 show ?thesis by (auto simp: eq intro: extends_trans)
  qed
qed

subsection \<open>Wake cycles\<close>

lemma wake_cycle_sleep:
  assumes "wake_cycle n env s = Stopped DeepSleep s'"
  shows "bootCount s' = bootCount s + 1 \<and>
         (\<exists>pre str taken. trace s' = trace s @ pre @ sleep_events str taken \<and>
            (\<forall>e\<in>set pre. \<not> is_sleep e))"
proof (cases "setup_fn n env s")
  case (Normal t)
  from setup_extends [of s n env s'] Normal have e: "extends s t" by simp
  then obtain es0 where es0: "trace t = trace s @ es0" "quiet es0" "bootCount t = bootCount s"
    by (rule extendsD)
  from assms Normal have st: "MQTTTask n env t = Stopped DeepSleep s'"
    by (simp add: wake_cycle_def)
  from MQTTTask_run [of t n env] obtain es where "task_run t (MQTTTask n env t) es" ..
  with st obtain pre str taken where
    "trace s' = trace t @ es" "bootCount s' = bootCount t + 1"
    "es = pre @ sleep_events str taken" "\<forall>e\<in>set pre. \<not> is_sleep e"
    by (auto simp: task_run_def)
  with es0 have "bootCount s' = bootCount s + 1"
    and "trace s' = trace s @ (es0 @ pre) @ sleep_events str taken"
    and "\<forall>e\<in>set (es0 @ pre). \<not> is_sleep e"
    by (auto dest: quiet_no_sleep)
  then show ?thesis by blast
next
  case (Stopped st t)
  with assms setup_extends [of s n env s'] show ?thesis
    by (simp add: wake_cycle_def)
next
  case (OutOfFuel t)
  with assms show ?thesis by (simp add: wake_cycle_def)
qed

lemma cycles_bootCount:
  "cycles k n env s = Some s' \<Longrightarrow> bootCount s' = bootCount s + of_nat k"
proof (induction k arbitrary: s)
  case 0
  then show ?case by simp
next
  case (Suc k)
  from Suc.prems obtain t where t: "wake_cycle n env s = Stopped DeepSleep t"
    and c: "cycles k n env (wake t) = Some s'"
    by (auto split: result.splits stop.splits)
  from wake_cycle_sleep [OF t] Suc.IH [OF c] show ?case by simp
qed

subsection \<open>The healthy run\<close>

lemma healthy_sel [simp]:
  "axp_begin healthy = (\<lambda>_. 0)"
  "axp_isPEKLongtPressIRQ healthy = (\<lambda>_. False)"
  "batt_voltage healthy = (\<lambda>_. 4100)"
  "wifi_connected healthy = (\<lambda>_. True)"
  "pmu_irq healthy = (\<lambda>_. False)"
  "mqtt_connected healthy = (\<lambda>_. True)"
  "mqtt_publish healthy = (\<lambda>_. True)"
  "xSemaphoreTake healthy = (\<lambda>_. True)"
  "random_source healthy = (\<lambda>tr. case rev tr of Random _ _ _ # _ \<Rightarrow> 5000 | _ \<Rightarrow> 1500)"
  by (simp_all add: healthy_def)

lemma mqtt_pub_cases:
  obtains (ok) t m v s1 str where "sample env s = ((t, m, v), s1)"
      "dataStr (bootCount s) t m v = Some str" "mqtt_publish env (trace s1)"
      "mqtt_pub env s = Stopped DeepSleep
          (emits (sleep_events str
                    (xSemaphoreTake env (trace s1 @ [MqttPublish mqttTopicPub str True])))
             (s1\<lparr>bootCount := bootCount s + 1\<rparr>))"
  | (ko) t m v s1 str where "sample env s = ((t, m, v), s1)"
      "dataStr (bootCount s) t m v = Some str" "\<not> mqtt_publish env (trace s1)"
      "mqtt_pub env s = Normal
          (emits (MqttPublish mqttTopicPub str False #
                  locked_events
                    (xSemaphoreTake env (trace s1 @ [MqttPublish mqttTopicPub str False]))
                    [SerialPrintln ''Failed to publish data''])
             s1)"
proof -
  obtain t m v s1 where sm: "sample env s = ((t, m, v), s1)"
    by (metis prod_cases3 surj_pair)
  obtain str where str: "dataStr (bootCount s) t m v = Some str"
    using dataStr_Some by blast
  show thesis
  proof (cases "mqtt_publish env (trace s1)")
    case True
    with mqtt_pub_eq [OF sm str] show ?thesis by (intro ok [OF sm str]) simp_all
  next
    case False
    with mqtt_pub_eq [OF sm str] show ?thesis by (intro ko [OF sm str]) simp_all
  qed
qed

lemma healthy_setup: "\<exists>t. setup_fn (Suc 0) healthy s = Normal t"
  by (simp add: setup_fn_def Let_def)

lemma healthy_task: "\<exists>s'. MQTTTask (Suc 0) healthy s = Stopped DeepSleep s'"
proof -
  let ?s5 = "emits [Call ''ArduinoOTA.handle'', MqttConnected True, MqttLoop, WiFiStatus True] s"
  have "MQTTTask_body 0 healthy s = and_then (mqtt_pub healthy ?s5) (\<lambda>s6. Normal (emit (VTaskDelay 100) s6))"
    by (simp add: MQTTTask_body_def Let_def emit_def emits_def)
  moreover have "\<exists>s'. mqtt_pub healthy ?s5 = Stopped DeepSleep s'"
    by (cases healthy ?s5 rule: mqtt_pub_cases) simp_all
  ultimately show ?thesis by auto
qed

lemma healthy_cycle: "\<exists>s'. wake_cycle (Suc 0) healthy s = Stopped DeepSleep s'"
  using healthy_setup [of s] healthy_task by (auto simp: wake_cycle_def)

lemma healthy_cycles: "\<exists>s'. cycles k (Suc 0) healthy s = Some s'"
proof (induction k arbitrary: s)
  case 0
  show ?case by simp
next
  case (Suc k)
  from healthy_cycle [of s] obtain t where "wake_cycle (Suc 0) healthy s = Stopped DeepSleep t" ..
  with Suc.IH [of "wake t"] show ?case by simp
qed


lemma SLEEP_DURATION: "unat SLEEP_DURATION_US = 30 * 1000000"
  by (simp add: SLEEP_DURATION_US_def)

lemma body_publish_ok:
  assumes "MqttPublish tp str True \<in> set (new_events s (MQTTTask_body n env s))"
  shows "\<exists>s' pre taken. MQTTTask_body n env s = Stopped DeepSleep s' \<and>
           bootCount s' = bootCount s + 1 \<and>
           new_events s (MQTTTask_body n env s) = pre @ sleep_events str taken \<and> quiet pre"
proof (cases n env s rule: MQTTTask_body_cases)
  case (idle pre)
  with assms have "MqttPublish tp str True \<in> set pre" by simp
  from quiet_no_publish [OF idle(1) this] show ?thesis by (simp add: is_publish_def)
next
  case (sleep pre t m v str' taken s')
  have ne: "new_events s (MQTTTask_body n env s) = pre @ sleep_events str' taken"
    using sleep by simp
  with assms have "MqttPublish tp str True \<in> set pre \<or> MqttPublish tp str True \<in> set (sleep_events str' taken)"
    by simp
  then have "str' = str"
    using quiet_no_publish [OF sleep(1), of "MqttPublish tp str True"]
    by (auto simp: is_publish_def sleep_events_def locked_events_def split: if_splits)
  with sleep ne show ?thesis by auto
next
  case (failed pre t m v str' taken s')
  have ne: "new_events s (MQTTTask_body n env s) = pre @ failure_events str' taken"
    using failed by simp
  with assms have "MqttPublish tp str True \<in> set pre \<or> MqttPublish tp str True \<in> set (failure_events str' taken)"
    by simp
  then show ?thesis
    using quiet_no_publish [OF failed(1), of "MqttPublish tp str True"]
    by (auto simp: is_publish_def failure_events_def locked_events_def split: if_splits)
qed

lemma body_publish_failed:
  assumes "MqttPublish tp str False \<in> set (new_events s (MQTTTask_body n env s))"
  shows "\<exists>s' pre. MQTTTask_body n env s = Normal s' \<and>
           bootCount s' = bootCount s \<and>
           new_events s (MQTTTask_body n env s) =
             pre @ failure_events str
                     (xSemaphoreTake env (trace s @ pre @ [MqttPublish mqttTopicPub str False]))
           \<and> quiet pre"
proof (cases n env s rule: MQTTTask_body_cases)
  case (idle pre)
  with assms have "MqttPublish tp str False \<in> set pre" by simp
  from quiet_no_publish [OF idle(1) this] show ?thesis by (simp add: is_publish_def)
next
  case (sleep pre t m v str' taken s')
  have ne: "new_events s (MQTTTask_body n env s) = pre @ sleep_events str' taken"
    using sleep by simp
  with assms have "MqttPublish tp str False \<in> set pre \<or> MqttPublish tp str False \<in> set (sleep_events str' taken)"
    by simp
  then show ?thesis
    using quiet_no_publish [OF sleep(1), of "MqttPublish tp str False"]
    by (auto simp: is_publish_def sleep_events_def locked_events_def split: if_splits)
next
  case (failed pre t m v str' taken s')
  have ne: "new_events s (MQTTTask_body n env s) = pre @ failure_events str' taken"
    using failed by simp
  with assms have "MqttPublish tp str False \<in> set pre \<or> MqttPublish tp str False \<in> set (failure_events str' taken)"
    by simp
  then have "str' = str"
    using quiet_no_publish [OF failed(1), of "MqttPublish tp str False"]
    by (auto simp: is_publish_def failure_events_def locked_events_def split: if_splits)
  with failed ne show ?thesis by auto
qed

lemma publish_fails_sel [simp]:
  "batt_voltage publish_fails = (\<lambda>_. 4100)"
  "wifi_connected publish_fails = (\<lambda>_. True)"
  "mqtt_connected publish_fails = (\<lambda>_. True)"
  "mqtt_publish publish_fails = (\<lambda>_. False)"
  "xSemaphoreTake publish_fails = (\<lambda>_. True)"
  "random_source publish_fails = (\<lambda>tr. case rev tr of Random _ _ _ # _ \<Rightarrow> 5000 | _ \<Rightarrow> 1500)"
  by (simp_all add: publish_fails_def healthy_def)


lemma dataStr7: "dataStr 7 2500 5000 4100 = Some payload7"
  by (simp add: dataStr_eq fixed_examples payload7_def)

lemma sample_boot7:
  "random_source env = (\<lambda>tr. case rev tr of Random _ _ _ # _ \<Rightarrow> 5000 | _ \<Rightarrow> 1500) \<Longrightarrow>
   batt_voltage env = (\<lambda>_. 4100) \<Longrightarrow>
   sample env s = ((2500, 5000, 4100),
     emits [Random 1000 4500 2500, Random 0 10000 5000, AxpGetBattVoltage 4100] s)"
  by (simp add: sample_eq Let_def rev_eq_Cons_iff split: list.splits event.splits)


lemma body_healthy:
  "MQTTTask_body n healthy s =
     Stopped DeepSleep
       (emits ([Call ''ArduinoOTA.handle'', MqttConnected True, MqttLoop, WiFiStatus True,
               Random 1000 4500 2500, Random 0 10000 5000, AxpGetBattVoltage 4100]
               @ sleep_events (the (dataStr (bootCount s) 2500 5000 4100)) True)
          (s\<lparr>bootCount := bootCount s + 1\<rparr>))"
proof -
  let ?s5 = "emits [Call ''ArduinoOTA.handle'', MqttConnected True, MqttLoop, WiFiStatus True] s"
  obtain str where str: "dataStr (bootCount s) 2500 5000 4100 = Some str"
    using dataStr_Some by blast
  have b: "MQTTTask_body n healthy s =
             and_then (mqtt_pub healthy ?s5) (\<lambda>s6. Normal (emit (VTaskDelay 100) s6))"
    by (simp add: MQTTTask_body_def Let_def emit_def emits_def)
  have sm: "sample healthy ?s5 = ((2500, 5000, 4100),
     emits [Random 1000 4500 2500, Random 0 10000 5000, AxpGetBattVoltage 4100] ?s5)"
    by (rule sample_boot7) simp_all
  have "bootCount ?s5 = bootCount s" by simp
  with str have str5: "dataStr (bootCount ?s5) 2500 5000 4100 = Some str" by simp
  show ?thesis
    unfolding b mqtt_pub_eq [OF sm str5]
    by (simp add: str emits_def)
qed

lemma body_publish_fails:
  "MQTTTask_body n publish_fails s =
     Normal
       (emits ([Call ''ArduinoOTA.handle'', MqttConnected True, MqttLoop, WiFiStatus True,
               Random 1000 4500 2500, Random 0 10000 5000, AxpGetBattVoltage 4100]
               @ failure_events (the (dataStr (bootCount s) 2500 5000 4100)) True) s)"
proof -
  let ?s5 = "emits [Call ''ArduinoOTA.handle'', MqttConnected True, MqttLoop, WiFiStatus True] s"
  obtain str where str: "dataStr (bootCount s) 2500 5000 4100 = Some str"
    using dataStr_Some by blast
  have b: "MQTTTask_body n publish_fails s =
             and_then (mqtt_pub publish_fails ?s5) (\<lambda>s6. Normal (emit (VTaskDelay 100) s6))"
    by (simp add: MQTTTask_body_def Let_def emit_def emits_def)
  have sm: "sample publish_fails ?s5 = ((2500, 5000, 4100),
     emits [Random 1000 4500 2500, Random 0 10000 5000, AxpGetBattVoltage 4100] ?s5)"
    by (rule sample_boot7) simp_all
  have "bootCount ?s5 = bootCount s" by simp
  with str have str5: "dataStr (bootCount ?s5) 2500 5000 4100 = Some str" by simp
  show ?thesis
    unfolding b mqtt_pub_eq [OF sm str5]
    by (simp add: str emits_def emit_def failure_events_def)
qed

lemma unat_bootCount_add:
  "unat ((b::u32) + of_nat k) = (unat b + k) mod 2 ^ 32"
  by (simp add: unat_word_ariths unat_of_nat mod_add_right_eq)


subsection \<open>Claims about the Telemetry Task\<close>

text \<open>
  C1, as the specification states it, fails at the end of the range of the counter: a
  cycle that starts with the counter at 4294967295 and publishes with success leaves it
  at 0, not at 4294967296.
\<close>

theorem bootCount_wraps_counterexample:
  "unat (bootCount boot_max) = 4294967295 \<and>
   map_option (unat \<circ> bootCount) (cycles 1 1 healthy boot_max) = Some 0"
proof -
  from healthy_cycles [of 1 boot_max] obtain s' where
    c: "cycles 1 (Suc 0) healthy boot_max = Some s'" ..
  from cycles_bootCount [OF c] have "bootCount s' = 0"
    by (simp add: boot_max_def)
  with c show ?thesis by (simp add: boot_max_def)
qed

text \<open>
  C1, as the code has it. A pass of the Telemetry Task in which \<^verbatim>\<open>publish\<close> returned
  true stops in deep sleep, and so does the task: the record is logged under the lock,
  \<open>bootCount\<close> is one higher, \<^verbatim>\<open>esp_sleep_enable_timer_wakeup\<close> is called with
  \<open>SLEEP_DURATION_US\<close>, which is 30 000 000 microseconds, and
  \<^verbatim>\<open>esp_deep_sleep_start\<close> is the last event. The counter is a \<^verbatim>\<open>uint32_t\<close>, so
  the increment is addition modulo \<open>2\<^sup>3\<^sup>2\<close>: after \<open>k\<close> wake cycles that each ended in
  deep sleep the counter is its old value plus \<open>k\<close> modulo \<open>2\<^sup>3\<^sup>2\<close>, and exactly the
  old value plus \<open>k\<close> when that sum is below \<open>2\<^sup>3\<^sup>2\<close>.
\<close>

theorem bootCount_after_successful_publish:
  "(\<forall>tp str. MqttPublish tp str True \<in> set (new_events s (MQTTTask_body n env s)) \<longrightarrow>
      (\<exists>s' pre taken.
         MQTTTask_body n env s = Stopped DeepSleep s' \<and>
         MQTTTask (Suc n) env s = Stopped DeepSleep s' \<and>
         bootCount s' = bootCount s + 1 \<and>
         new_events s (MQTTTask_body n env s) =
           pre @ MqttPublish mqttTopicPub str True #
           locked_events taken
             [SerialPrintln str, SerialPrintln ''Going to sleep until next TX...'']
           @ [SleepEnableTimerWakeup SLEEP_DURATION_US, DeepSleepStart] \<and>
         quiet pre)) \<and>
   unat SLEEP_DURATION_US = 30 * 1000000 \<and>
   (\<forall>s'. cycles k n env s = Some s' \<longrightarrow>
      bootCount s' = bootCount s + of_nat k \<and>
      unat (bootCount s') = (unat (bootCount s) + k) mod 2 ^ 32 \<and>
      (unat (bootCount s) + k < 2 ^ 32 \<longrightarrow> unat (bootCount s') = unat (bootCount s) + k))"
proof (intro conjI allI impI)
  fix tp str
  assume "MqttPublish tp str True \<in> set (new_events s (MQTTTask_body n env s))"
  from body_publish_ok [OF this] obtain s' pre taken where
    h: "MQTTTask_body n env s = Stopped DeepSleep s'" "bootCount s' = bootCount s + 1"
      "new_events s (MQTTTask_body n env s) = pre @ sleep_events str taken" "quiet pre"
    by blast
  show "\<exists>s' pre taken.
         MQTTTask_body n env s = Stopped DeepSleep s' \<and>
         MQTTTask (Suc n) env s = Stopped DeepSleep s' \<and>
         bootCount s' = bootCount s + 1 \<and>
         new_events s (MQTTTask_body n env s) =
           pre @ MqttPublish mqttTopicPub str True #
           locked_events taken
             [SerialPrintln str, SerialPrintln ''Going to sleep until next TX...'']
           @ [SleepEnableTimerWakeup SLEEP_DURATION_US, DeepSleepStart] \<and>
         quiet pre"
    using h by (intro exI [of _ s'] exI [of _ pre] exI [of _ taken]) (simp add: sleep_events_def)
next
  show "unat SLEEP_DURATION_US = 30 * 1000000"
    by (simp add: SLEEP_DURATION_US_def)
next
  fix s' assume c: "cycles k n env s = Some s'"
  then show b: "bootCount s' = bootCount s + of_nat k"
    by (rule cycles_bootCount)
  then show m: "unat (bootCount s') = (unat (bootCount s) + k) mod 2 ^ 32"
    by (simp add: unat_bootCount_add)
  show "unat (bootCount s') = unat (bootCount s) + k" if "unat (bootCount s) + k < 2 ^ 32"
    using m that by simp
qed

theorem bootCount_after_successful_publish_witness:
  "MqttPublish mqttTopicPub payload7 True \<in> set (new_events boot7 (MQTTTask_body (Suc 0) healthy boot7)) \<and>
   bootCount (final (MQTTTask (Suc (Suc 0)) healthy boot7)) = 8 \<and>
   unat (bootCount boot7) + 2 < 2 ^ 32 \<and>
   map_option (unat \<circ> bootCount) (cycles 2 (Suc 0) healthy boot7) = Some 9"
proof -
  have b7: "bootCount boot7 = 7" by (simp add: boot7_def power_on_def)
  have ne: "new_events boot7 (MQTTTask_body (Suc 0) healthy boot7) =
      [Call ''ArduinoOTA.handle'', MqttConnected True, MqttLoop, WiFiStatus True,
               Random 1000 4500 2500, Random 0 10000 5000, AxpGetBattVoltage 4100]
               @ sleep_events payload7 True"
    by (simp add: body_healthy b7 dataStr7)
  have 1: "MqttPublish mqttTopicPub payload7 True \<in> set (new_events boot7 (MQTTTask_body (Suc 0) healthy boot7))"
    by (simp add: ne sleep_events_def)
  from bootCount_after_successful_publish [of boot7 "Suc 0" healthy 2, THEN conjunct1, rule_format, OF 1]
  have 2: "bootCount (final (MQTTTask (Suc (Suc 0)) healthy boot7)) = 8"
    by (auto simp: b7)
  from healthy_cycles [of 2 boot7] obtain s' where c: "cycles 2 (Suc 0) healthy boot7 = Some s'" ..
  have 3: "unat (bootCount boot7) + 2 < 2 ^ 32" by (simp add: b7)
  from bootCount_after_successful_publish [of boot7 "Suc 0" healthy 2] c 3
  have "unat (bootCount s') = unat (bootCount boot7) + 2" by blast
  with c have 4: "map_option (unat \<circ> bootCount) (cycles 2 (Suc 0) healthy boot7) = Some 9"
    by (simp add: b7)
  from 1 2 3 4 show ?thesis by blast
qed

text \<open>
  C3. A pass of the Telemetry Task in which \<^verbatim>\<open>publish\<close> returned false returns
  normally, so the task goes on with its next pass; \<open>bootCount\<close> is unchanged; after the
  publish call the task asks for the console lock, writes the line
  \<open>Failed to publish data\<close> and gives the lock when \<^verbatim>\<open>xSemaphoreTake\<close> answered
  true at that moment (and writes nothing when it answered false), and goes to the delay
  of 100 ms; the pass contains exactly one publish call, and neither the wake timer nor
  deep sleep is touched. The state has no place where a record could be kept.
\<close>

theorem publish_failure_leaves_counter:
  "MqttPublish tp str False \<in> set (new_events s (MQTTTask_body n env s)) \<longrightarrow>
     (\<exists>s' pre.
        MQTTTask_body n env s = Normal s' \<and>
        MQTTTask (Suc n) env s = MQTTTask n env s' \<and>
        bootCount s' = bootCount s \<and>
        new_events s (MQTTTask_body n env s) =
          pre @ MqttPublish mqttTopicPub str False #
          SemTake (xSemaphoreTake env (trace s @ pre @ [MqttPublish mqttTopicPub str False])) #
          (if xSemaphoreTake env (trace s @ pre @ [MqttPublish mqttTopicPub str False])
           then [SerialPrintln ''Failed to publish data'', SemGive] else [])
          @ [VTaskDelay 100] \<and>
        quiet pre) \<and>
     length (filter is_publish (new_events s (MQTTTask_body n env s))) = 1 \<and>
     (\<forall>e\<in>set (new_events s (MQTTTask_body n env s)). \<not> is_sleep e)"
proof
  assume "MqttPublish tp str False \<in> set (new_events s (MQTTTask_body n env s))"
  from body_publish_failed [OF this] obtain s' pre where
    h: "MQTTTask_body n env s = Normal s'" "bootCount s' = bootCount s"
      "new_events s (MQTTTask_body n env s) =
         pre @ failure_events str
                 (xSemaphoreTake env (trace s @ pre @ [MqttPublish mqttTopicPub str False]))"
      "quiet pre"
    by blast
  let ?taken = "xSemaphoreTake env (trace s @ pre @ [MqttPublish mqttTopicPub str False])"
  have "MQTTTask_body n env s = Normal s' \<and>
        MQTTTask (Suc n) env s = MQTTTask n env s' \<and>
        bootCount s' = bootCount s \<and>
        new_events s (MQTTTask_body n env s) =
          pre @ MqttPublish mqttTopicPub str False #
          SemTake ?taken #
          (if ?taken then [SerialPrintln ''Failed to publish data'', SemGive] else [])
          @ [VTaskDelay 100] \<and>
        quiet pre"
    using h by (simp add: failure_events_def locked_events_def)
  then have "\<exists>s' pre.
        MQTTTask_body n env s = Normal s' \<and>
        MQTTTask (Suc n) env s = MQTTTask n env s' \<and>
        bootCount s' = bootCount s \<and>
        new_events s (MQTTTask_body n env s) =
          pre @ MqttPublish mqttTopicPub str False #
          SemTake (xSemaphoreTake env (trace s @ pre @ [MqttPublish mqttTopicPub str False])) #
          (if xSemaphoreTake env (trace s @ pre @ [MqttPublish mqttTopicPub str False])
           then [SerialPrintln ''Failed to publish data'', SemGive] else [])
          @ [VTaskDelay 100] \<and>
        quiet pre"
    by (intro exI [of _ s'] exI [of _ pre])
  moreover have "filter is_publish pre = []"
    using quiet_no_publish [OF h(4)] by (simp add: filter_empty_conv)
  then have "length (filter is_publish (new_events s (MQTTTask_body n env s))) = 1"
    by (simp add: h(3) failure_events_def locked_events_def is_publish_def)
  moreover have "\<forall>e\<in>set (new_events s (MQTTTask_body n env s)). \<not> is_sleep e"
    using quiet_no_sleep [OF h(4)] no_sleep_failure_events [of _ str ?taken]
    by (auto simp: h(3))
  ultimately show "(\<exists>s' pre.
        MQTTTask_body n env s = Normal s' \<and>
        MQTTTask (Suc n) env s = MQTTTask n env s' \<and>
        bootCount s' = bootCount s \<and>
        new_events s (MQTTTask_body n env s) =
          pre @ MqttPublish mqttTopicPub str False #
          SemTake (xSemaphoreTake env (trace s @ pre @ [MqttPublish mqttTopicPub str False])) #
          (if xSemaphoreTake env (trace s @ pre @ [MqttPublish mqttTopicPub str False])
           then [SerialPrintln ''Failed to publish data'', SemGive] else [])
          @ [VTaskDelay 100] \<and>
        quiet pre) \<and>
     length (filter is_publish (new_events s (MQTTTask_body n env s))) = 1 \<and>
     (\<forall>e\<in>set (new_events s (MQTTTask_body n env s)). \<not> is_sleep e)"
    by blast
qed

theorem publish_failure_leaves_counter_witness:
  "MqttPublish mqttTopicPub payload7 False
     \<in> set (new_events boot7 (MQTTTask_body (Suc 0) publish_fails boot7)) \<and>
   bootCount (final (MQTTTask_body (Suc 0) publish_fails boot7)) = 7 \<and>
   SerialPrintln ''Failed to publish data''
     \<in> set (new_events boot7 (MQTTTask_body (Suc 0) publish_fails boot7)) \<and>
   DeepSleepStart \<notin> set (new_events boot7 (MQTTTask_body (Suc 0) publish_fails boot7))"
proof -
  have b7: "bootCount boot7 = 7" by (simp add: boot7_def power_on_def)
  have ne: "new_events boot7 (MQTTTask_body (Suc 0) publish_fails boot7) =
      [Call ''ArduinoOTA.handle'', MqttConnected True, MqttLoop, WiFiStatus True,
               Random 1000 4500 2500, Random 0 10000 5000, AxpGetBattVoltage 4100]
               @ failure_events payload7 True"
    by (simp add: body_publish_fails b7 dataStr7)
  have 1: "MqttPublish mqttTopicPub payload7 False
     \<in> set (new_events boot7 (MQTTTask_body (Suc 0) publish_fails boot7))"
    by (simp add: ne failure_events_def)
  note T = publish_failure_leaves_counter [of mqttTopicPub payload7 boot7 "Suc 0" publish_fails,
      rule_format, OF 1]
  from T have 2: "bootCount (final (MQTTTask_body (Suc 0) publish_fails boot7)) = 7"
    by (auto simp: b7)
  from T obtain pre where
    "new_events boot7 (MQTTTask_body (Suc 0) publish_fails boot7) =
       pre @ MqttPublish mqttTopicPub payload7 False #
       SemTake (xSemaphoreTake publish_fails
                  (trace boot7 @ pre @ [MqttPublish mqttTopicPub payload7 False])) #
       (if xSemaphoreTake publish_fails
             (trace boot7 @ pre @ [MqttPublish mqttTopicPub payload7 False])
        then [SerialPrintln ''Failed to publish data'', SemGive] else [])
       @ [VTaskDelay 100]"
    by blast
  then have 3: "SerialPrintln ''Failed to publish data''
     \<in> set (new_events boot7 (MQTTTask_body (Suc 0) publish_fails boot7))"
    by simp
  from T have "\<not> is_sleep DeepSleepStart \<or>
      DeepSleepStart \<notin> set (new_events boot7 (MQTTTask_body (Suc 0) publish_fails boot7))"
    by blast
  then have 4: "DeepSleepStart \<notin> set (new_events boot7 (MQTTTask_body (Suc 0) publish_fails boot7))"
    by (simp add: is_sleep_def)
  from 1 2 3 4 show ?thesis by blast
qed

subsection \<open>The payload on the wire\<close>

text \<open>
  C2, as the specification states it, fails for a soil moisture below 10.00: the
  conversion \<^verbatim>\<open>%5.2f\<close> has a minimum field width of 5, so \<open>5.25\<close> is written with a
  space in front of it, which the format of the specification does not have.
\<close>

theorem payload_padding_counterexample:
  "dataStr 7 2500 525 4100 =
     Some ''{\"bootCnt\":7,\"soilTemperature\":25.00,\"soilMoisture\": 5.25,\"batVoltage\":4.100}'' \<and>
   spec_payload 7 2500 525 4100 =
     ''{\"bootCnt\":7,\"soilTemperature\":25.00,\"soilMoisture\":5.25,\"batVoltage\":4.100}''"
  by (simp add: dataStr_eq spec_payload_def fixed_examples)

lemma mqtt_pub_payload:
  assumes "MqttPublish tp str ok \<in> set (new_events s (mqtt_pub env s))"
  shows "\<exists>t m v. dataStr (bootCount s) t m v = Some str"
proof (cases env s rule: mqtt_pub_cases)
  case (ok t m v s1 str')
  from sample_extends [OF ok(1)] obtain es where es: "trace s1 = trace s @ es" "quiet es"
    by (rule extendsD)
  have "new_events s (mqtt_pub env s) = es @ sleep_events str'
          (xSemaphoreTake env (trace s1 @ [MqttPublish mqttTopicPub str' True]))"
    by (simp add: ok(4) es(1))
  with assms quiet_no_publish [OF es(2), of "MqttPublish tp str ok"] have "str' = str"
    by (auto simp: is_publish_def sleep_events_def locked_events_def split: if_splits)
  with ok(2) show ?thesis by blast
next
  case (ko t m v s1 str')
  from sample_extends [OF ko(1)] obtain es where es: "trace s1 = trace s @ es" "quiet es"
    by (rule extendsD)
  have "new_events s (mqtt_pub env s) = es @ MqttPublish mqttTopicPub str' False #
                  locked_events
                    (xSemaphoreTake env (trace s1 @ [MqttPublish mqttTopicPub str' False]))
                    [SerialPrintln ''Failed to publish data'']"
    by (simp add: ko(4) es(1))
  with assms quiet_no_publish [OF es(2), of "MqttPublish tp str ok"] have "str' = str"
    by (auto simp: is_publish_def locked_events_def split: if_splits)
  with ko(2) show ?thesis by blast
qed

text \<open>
  C2, as the code has it. The string that \<^verbatim>\<open>sprintf\<close> builds has the four fields in
  the order \<open>bootCnt\<close>, \<open>soilTemperature\<close>, \<open>soilMoisture\<close>, \<open>batVoltage\<close>: the
  counter in decimal, temperature and moisture with two decimals, the voltage with three;
  the moisture is preceded by one space when it is below 10.00 and by nothing otherwise.
  From 10.00 on the string is the one of the specification. With boot count 7 and the
  values (25.00, 50.00, 4.100) it is the string of the scenario. Every payload that the
  publish block hands to \<^verbatim>\<open>publish\<close> is such a string, built with the counter of that
  moment.
\<close>

theorem payload_format_padded:
  "dataStr bc t m v =
     Some (''{\"bootCnt\":'' @ dec (unat bc) @
           '',\"soilTemperature\":'' @ fixed 2 t @
           '',\"soilMoisture\":'' @ (if m < 1000 then '' '' else []) @ fixed 2 m @
           '',\"batVoltage\":'' @ fixed 3 v @ ''}'') \<and>
   (1000 \<le> m \<longrightarrow> dataStr bc t m v = Some (spec_payload (unat bc) t m v)) \<and>
   dataStr 7 2500 5000 4100 =
     Some ''{\"bootCnt\":7,\"soilTemperature\":25.00,\"soilMoisture\":50.00,\"batVoltage\":4.100}'' \<and>
   (\<forall>tp str ok. MqttPublish tp str ok \<in> set (new_events s (mqtt_pub env s)) \<longrightarrow>
      (\<exists>t m v. dataStr (bootCount s) t m v = Some str))"
proof (intro conjI allI impI)
  show "dataStr bc t m v =
     Some (''{\"bootCnt\":'' @ dec (unat bc) @
           '',\"soilTemperature\":'' @ fixed 2 t @
           '',\"soilMoisture\":'' @ (if m < 1000 then '' '' else []) @ fixed 2 m @
           '',\"batVoltage\":'' @ fixed 3 v @ ''}'')"
    by (rule dataStr_eq)
  show "dataStr bc t m v = Some (spec_payload (unat bc) t m v)" if "1000 \<le> m"
    using that by (simp add: dataStr_eq spec_payload_def)
  show "dataStr 7 2500 5000 4100 =
     Some ''{\"bootCnt\":7,\"soilTemperature\":25.00,\"soilMoisture\":50.00,\"batVoltage\":4.100}''"
    by (simp add: dataStr7 payload7_def)
  show "\<exists>t m v. dataStr (bootCount s) t m v = Some str"
    if "MqttPublish tp str ok \<in> set (new_events s (mqtt_pub env s))" for tp str ok
    using that by (rule mqtt_pub_payload)
qed

lemma mqtt_pub_healthy_boot7:
  "new_events boot7 (mqtt_pub healthy boot7) =
     [Random 1000 4500 2500, Random 0 10000 5000, AxpGetBattVoltage 4100]
     @ sleep_events payload7 True"
proof -
  have sm: "sample healthy boot7 = ((2500, 5000, 4100),
     emits [Random 1000 4500 2500, Random 0 10000 5000, AxpGetBattVoltage 4100] boot7)"
    by (rule sample_boot7) simp_all
  have str: "dataStr (bootCount boot7) 2500 5000 4100 = Some payload7"
    by (simp add: boot7_def power_on_def dataStr7)
  show ?thesis
    unfolding mqtt_pub_eq [OF sm str] by (simp add: new_events_def)
qed

theorem payload_format_padded_witness:
  "(1000::nat) \<le> 5000 \<and>
   dataStr 7 2500 5000 4100 = Some (spec_payload 7 2500 5000 4100) \<and>
   MqttPublish mqttTopicPub payload7 True \<in> set (new_events boot7 (mqtt_pub healthy boot7)) \<and>
   (\<exists>t m v. dataStr (bootCount boot7) t m v = Some payload7)"
proof -
  note T = payload_format_padded [of 7 2500 5000 4100 boot7 healthy]
  have 1: "MqttPublish mqttTopicPub payload7 True \<in> set (new_events boot7 (mqtt_pub healthy boot7))"
    by (simp add: mqtt_pub_healthy_boot7 sleep_events_def)
  have le: "(1000::nat) \<le> 5000" by simp
  from T le have "dataStr 7 2500 5000 4100 = Some (spec_payload (unat (7::u32)) 2500 5000 4100)"
    by blast
  moreover have "unat (7::u32) = 7" by simp
  ultimately have 2: "dataStr 7 2500 5000 4100 = Some (spec_payload 7 2500 5000 4100)"
    by (simp only:)
  from T 1 have 3: "\<exists>t m v. dataStr (bootCount boot7) t m v = Some payload7"
    by blast
  from le 1 2 3 show ?thesis by blast
qed

subsection \<open>Re-arming the interrupt source\<close>

lemma long_press_sel [simp]:
  "axp_isPEKLongtPressIRQ long_press = (\<lambda>_. True)"
  "shutdown_returns long_press = (\<lambda>_. False)"
  "xSemaphoreTake long_press = (\<lambda>_. True)"
  "pmu_irq long_press = (\<lambda>_. False)"
  by (simp_all add: long_press_def healthy_def)

lemma PEK_long_press_pressed:
  "PEKTask_body long_press pressed =
     Stopped PowerOff
       (emits [WritePekPressed False, AxpReadIRQ, AxpIsPEKLongtPressIRQ True, SemTake True,
               SerialPrintln ''Long press detected: Shutting down...'', SemGive,
               VTaskDelay 100, AxpShutdown] power_on)"
proof -
  have p: "pekPressed pressed" by (simp add: pressed_def)
  have l: "axp_isPEKLongtPressIRQ long_press (trace pressed @ [WritePekPressed False, AxpReadIRQ])"
    by simp
  have "pressed\<lparr>pekPressed := False\<rparr> = power_on"
    by (simp add: pressed_def power_on_def)
  then show ?thesis
    unfolding PEK_long [OF p l] by (simp add: locked_events_def)
qed

text \<open>
  C6, as the specification states it, fails in the long-press case when the power-off
  command does what the specification says it does and does not return: the pass ends with
  \<^verbatim>\<open>axp.shutdown()\<close>, and \<^verbatim>\<open>axp.clearIRQ()\<close>, which stands after it, is not reached.
\<close>

theorem PEKTask_long_press_no_rearm_counterexample:
  "pekPressed pressed \<and>
   axp_isPEKLongtPressIRQ long_press (trace pressed @ [WritePekPressed False, AxpReadIRQ]) \<and>
   new_events pressed (PEKTask_body long_press pressed) =
     [WritePekPressed False, AxpReadIRQ, AxpIsPEKLongtPressIRQ True, SemTake True,
      SerialPrintln ''Long press detected: Shutting down...'', SemGive,
      VTaskDelay 100, AxpShutdown] \<and>
   AxpClearIRQ \<notin> set (new_events pressed (PEKTask_body long_press pressed))"
  by (simp add: PEK_long_press_pressed new_events_def) (simp add: pressed_def power_on_def)

text \<open>
  C6, as the code has it. In a pass that found the flag set, \<^verbatim>\<open>axp.clearIRQ()\<close> is
  the last call before the idle delay whenever control gets there: always when the cause
  is not a long press, and in the long-press case when \<^verbatim>\<open>axp.shutdown()\<close> returns.
  It comes after the classification and is issued once. When the cause is a long press
  and \<^verbatim>\<open>axp.shutdown()\<close> does not return, the pass ends with the shutdown and the
  interrupt source is not cleared.
\<close>

theorem PEKTask_rearms_when_control_returns:
  fixes env s
  defines "r \<equiv> PEKTask_body env s"
  defines "long \<equiv> axp_isPEKLongtPressIRQ env (trace s @ [WritePekPressed False, AxpReadIRQ])"
  defines "classified \<equiv>
    trace s @ [WritePekPressed False, AxpReadIRQ, AxpIsPEKLongtPressIRQ True]"
  defines "ret \<equiv>
    shutdown_returns env
      (classified
       @ locked_events (xSemaphoreTake env classified)
           [SerialPrintln ''Long press detected: Shutting down...'']
       @ [VTaskDelay 100])"
  assumes "pekPressed s"
  shows "(\<not> long \<or> ret \<longrightarrow>
            r = Normal (final r) \<and>
            (\<exists>pre. new_events s r = pre @ [AxpClearIRQ, VTaskDelay 100] \<and>
                   AxpIsPEKLongtPressIRQ long \<in> set pre \<and> AxpClearIRQ \<notin> set pre)) \<and>
         (long \<and> \<not> ret \<longrightarrow>
            r = Stopped PowerOff (final r) \<and>
            (\<exists>pre. new_events s r = pre @ [AxpShutdown]) \<and>
            AxpClearIRQ \<notin> set (new_events s r))"
proof (cases long)
  case False
  then have nl: "\<not> axp_isPEKLongtPressIRQ env (trace s @ [WritePekPressed False, AxpReadIRQ])"
    by (simp add: long_def)
  have "r = Normal (final r) \<and>
        new_events s r = [WritePekPressed False, AxpReadIRQ, AxpIsPEKLongtPressIRQ long]
                         @ [AxpClearIRQ, VTaskDelay 100]"
    unfolding r_def PEK_short [OF assms(5) nl] using False by (simp add: new_events_def)
  then have "r = Normal (final r) \<and>
            (\<exists>pre. new_events s r = pre @ [AxpClearIRQ, VTaskDelay 100] \<and>
                   AxpIsPEKLongtPressIRQ long \<in> set pre \<and> AxpClearIRQ \<notin> set pre)"
    by (intro conjI exI [of _ "[WritePekPressed False, AxpReadIRQ, AxpIsPEKLongtPressIRQ long]"])
      simp_all
  with False show ?thesis by simp
next
  case True
  then have l: "axp_isPEKLongtPressIRQ env (trace s @ [WritePekPressed False, AxpReadIRQ])"
    by (simp add: long_def)
  note eq = PEK_long [OF assms(5) l, folded classified_def, folded ret_def]
  show ?thesis
  proof (cases ret)
    case b: True
    let ?pre = "[WritePekPressed False, AxpReadIRQ, AxpIsPEKLongtPressIRQ True]
                @ locked_events (xSemaphoreTake env classified)
                    [SerialPrintln ''Long press detected: Shutting down...'']
                @ [VTaskDelay 100, AxpShutdown]"
    have "r = Normal (final r) \<and> new_events s r = ?pre @ [AxpClearIRQ, VTaskDelay 100]"
      unfolding r_def eq using b by (simp add: new_events_def)
    moreover have "AxpIsPEKLongtPressIRQ long \<in> set ?pre \<and> AxpClearIRQ \<notin> set ?pre"
      using True by (simp add: locked_events_def)
    ultimately have "r = Normal (final r) \<and>
            (\<exists>pre. new_events s r = pre @ [AxpClearIRQ, VTaskDelay 100] \<and>
                   AxpIsPEKLongtPressIRQ long \<in> set pre \<and> AxpClearIRQ \<notin> set pre)"
      by blast
    with True b show ?thesis by simp
  next
    case nb: False
    let ?pre = "[WritePekPressed False, AxpReadIRQ, AxpIsPEKLongtPressIRQ True]
                @ locked_events (xSemaphoreTake env classified)
                    [SerialPrintln ''Long press detected: Shutting down...'']
                @ [VTaskDelay 100]"
    have "r = Stopped PowerOff (final r) \<and> new_events s r = ?pre @ [AxpShutdown]"
      unfolding r_def eq using nb by (simp add: new_events_def)
    moreover have "AxpClearIRQ \<notin> set (?pre @ [AxpShutdown])"
      by (simp add: locked_events_def)
    ultimately have "r = Stopped PowerOff (final r) \<and>
            (\<exists>pre. new_events s r = pre @ [AxpShutdown]) \<and>
            AxpClearIRQ \<notin> set (new_events s r)"
      by auto
    with True nb show ?thesis by simp
  qed
qed

theorem PEKTask_rearms_when_control_returns_witness:
  "pekPressed pressed \<and>
   \<not> axp_isPEKLongtPressIRQ healthy (trace pressed @ [WritePekPressed False, AxpReadIRQ]) \<and>
   (\<exists>pre. new_events pressed (PEKTask_body healthy pressed) = pre @ [AxpClearIRQ, VTaskDelay 100]) \<and>
   axp_isPEKLongtPressIRQ long_press (trace pressed @ [WritePekPressed False, AxpReadIRQ]) \<and>
   \<not> shutdown_returns long_press
       (trace pressed @ [WritePekPressed False, AxpReadIRQ, AxpIsPEKLongtPressIRQ True]
        @ locked_events
            (xSemaphoreTake long_press
               (trace pressed @ [WritePekPressed False, AxpReadIRQ, AxpIsPEKLongtPressIRQ True]))
            [SerialPrintln ''Long press detected: Shutting down...'']
        @ [VTaskDelay 100]) \<and>
   AxpClearIRQ \<notin> set (new_events pressed (PEKTask_body long_press pressed))"
proof -
  have p: "pekPressed pressed" by (simp add: pressed_def)
  from PEKTask_rearms_when_control_returns [OF p, of healthy]
  have 1: "\<exists>pre. new_events pressed (PEKTask_body healthy pressed) = pre @ [AxpClearIRQ, VTaskDelay 100]"
    by auto
  from PEKTask_rearms_when_control_returns [OF p, of long_press]
  have 2: "AxpClearIRQ \<notin> set (new_events pressed (PEKTask_body long_press pressed))"
    by simp
  from p 1 2 show ?thesis by simp
qed

subsection \<open>A missing power-management chip\<close>

lemma no_pmu_sel [simp]: "axp_begin no_pmu = (\<lambda>_. - 1)"
  by (simp add: no_pmu_def healthy_def)

text \<open>
  C8. When \<^verbatim>\<open>axp.begin\<close> does not return 0, \<^verbatim>\<open>setup\<close> never returns, whatever the
  fuel: it is out of fuel inside \<^verbatim>\<open>while(1);\<close>. So the wake cycle never gets to the
  Telemetry Task. All that ever happens is the start of the serial port, the banner, the
  start of the bus, the failed detection and the line \<open>AXP192 not detected!\<close>: no task is
  created, nothing is sampled, nothing is published.
\<close>

theorem no_pmu_halts_before_tasks:
  fixes env s n
  defines "rc \<equiv> axp_begin env (trace s @ [Call ''Serial.begin'',
                    SerialPrintln ''Soil Quality Sensor Beta'', Call ''Wire.begin''])"
  assumes "rc \<noteq> 0"
  shows "setup_fn n env s = OutOfFuel (final (setup_fn n env s)) \<and>
         wake_cycle n env s = setup_fn n env s \<and>
         new_events s (wake_cycle n env s) =
           [Call ''Serial.begin'', SerialPrintln ''Soil Quality Sensor Beta'',
            Call ''Wire.begin'', AxpBegin rc, SerialPrintln ''AXP192 not detected!''] \<and>
         (\<forall>e\<in>set (new_events s (wake_cycle n env s)).
            \<not> is_task_create e \<and> \<not> is_telemetry e)"
proof -
  note eq = setup_no_pmu [OF assms(2) [unfolded rc_def], of n, folded rc_def]
  have w: "wake_cycle n env s = setup_fn n env s"
    by (simp add: wake_cycle_def eq)
  show ?thesis
    unfolding w unfolding eq
    by (simp add: new_events_def is_task_create_def is_telemetry_def)
qed

theorem no_pmu_halts_before_tasks_witness:
  "axp_begin no_pmu (trace power_on @ [Call ''Serial.begin'',
      SerialPrintln ''Soil Quality Sensor Beta'', Call ''Wire.begin'']) \<noteq> 0 \<and>
   new_events power_on (wake_cycle 1000 no_pmu power_on) =
     [Call ''Serial.begin'', SerialPrintln ''Soil Quality Sensor Beta'', Call ''Wire.begin'',
      AxpBegin (- 1), SerialPrintln ''AXP192 not detected!'']"
proof -
  have h: "axp_begin no_pmu (trace power_on @ [Call ''Serial.begin'',
      SerialPrintln ''Soil Quality Sensor Beta'', Call ''Wire.begin'']) \<noteq> 0"
    by simp
  from no_pmu_halts_before_tasks [OF h, of 1000]
  have "new_events power_on (wake_cycle 1000 no_pmu power_on) =
     [Call ''Serial.begin'', SerialPrintln ''Soil Quality Sensor Beta'', Call ''Wire.begin'',
      AxpBegin (axp_begin no_pmu (trace power_on @ [Call ''Serial.begin'',
        SerialPrintln ''Soil Quality Sensor Beta'', Call ''Wire.begin''])),
      SerialPrintln ''AXP192 not detected!'']"
    by blast
  then have "new_events power_on (wake_cycle 1000 no_pmu power_on) =
     [Call ''Serial.begin'', SerialPrintln ''Soil Quality Sensor Beta'', Call ''Wire.begin'',
      AxpBegin (- 1), SerialPrintln ''AXP192 not detected!'']"
    by simp
  with h show ?thesis by blast
qed


subsection \<open>The console lock\<close>

lemma PEK_body_lock:
  "\<exists>es. trace (final (PEKTask_body env s)) = trace s @ es \<and> lock_from Free es = Free"
proof (cases "pekPressed s")
  case False
  then show ?thesis by (simp add: PEK_not_pressed lock_step_def)
next
  case True
  show ?thesis
  proof (cases "axp_isPEKLongtPressIRQ env (trace s @ [WritePekPressed False, AxpReadIRQ])")
    case l: True
    show ?thesis
      unfolding PEK_long [OF True l]
      by (simp add: locked_events_def lock_step_def)
  next
    case l: False
    show ?thesis
      unfolding PEK_short [OF True l]
      by (simp add: lock_step_def)
  qed
qed

lemma PEKTask_lock:
  "\<exists>es. trace (final (PEKTask n env s)) = trace s @ es \<and> lock_from Free es = Free"
proof (induction n arbitrary: s)
  case 0
  show ?case by simp
next
  case (Suc n)
  let ?s0 = "interrupts env s"
  have "\<exists>es. trace ?s0 = trace s @ es \<and> lock_from Free es = Free"
    by (simp add: interrupts_def handlePMUIRQ_def lock_step_def)
  then obtain e0 where e0: "trace ?s0 = trace s @ e0" "lock_from Free e0 = Free" by blast
  from PEK_body_lock [of env ?s0] obtain e1 where
    e1: "trace (final (PEKTask_body env ?s0)) = trace ?s0 @ e1" "lock_from Free e1 = Free"
    by blast
  show ?case
  proof (cases "PEKTask_body env ?s0")
    case (Normal t)
    from Suc.IH [of t] obtain e2 where
      e2: "trace (final (PEKTask n env t)) = trace t @ e2" "lock_from Free e2 = Free"
      by blast
    have "trace (final (PEKTask (Suc n) env s)) = trace s @ (e0 @ e1 @ e2)"
      using Normal e0 e1 e2 by simp
    moreover have "lock_from Free (e0 @ e1 @ e2) = Free"
      using e0 e1 e2 by simp
    ultimately show ?thesis by blast
  next
    case (Stopped st t)
    have "trace (final (PEKTask (Suc n) env s)) = trace s @ (e0 @ e1)"
      using Stopped e0 e1 by simp
    moreover have "lock_from Free (e0 @ e1) = Free"
      using e0 e1 by simp
    ultimately show ?thesis by blast
  next
    case (OutOfFuel t)
    have "trace (final (PEKTask (Suc n) env s)) = trace s @ (e0 @ e1)"
      using OutOfFuel e0 e1 by simp
    moreover have "lock_from Free (e0 @ e1) = Free"
      using e0 e1 by simp
    ultimately show ?thesis by blast
  qed
qed

lemma PEKTask_long_press_pressed:
  "new_events pressed (PEKTask (Suc 0) long_press pressed) =
     [WritePekPressed False, AxpReadIRQ, AxpIsPEKLongtPressIRQ True, SemTake True,
      SerialPrintln ''Long press detected: Shutting down...'', SemGive, VTaskDelay 100]
     @ AxpShutdown # []"
  by (simp add: interrupts_def PEK_long_press_pressed new_events_def)
    (simp add: pressed_def power_on_def)

text \<open>
  C9. In every run of the Telemetry Task and in every run of the Power Task, of any
  length, each successful \<^verbatim>\<open>xSemaphoreTake\<close> is followed by diagnostic writes only and
  then by \<^verbatim>\<open>xSemaphoreGive\<close>, and the run ends with the lock released. In particular
  at every \<^verbatim>\<open>esp_deep_sleep_start()\<close> and at every \<^verbatim>\<open>axp.shutdown()\<close> of these runs
  the task does not hold the lock.
\<close>

theorem console_lock_released_before_exit:
  "lock_of (new_events s (MQTTTask n env s)) = Free \<and>
   lock_of (new_events s (PEKTask n env s)) = Free \<and>
   (\<forall>es e fs. non_returning e \<and>
        (new_events s (MQTTTask n env s) = es @ e # fs \<or>
         new_events s (PEKTask n env s) = es @ e # fs) \<longrightarrow>
      lock_of es = Free)"
proof -
  from MQTTTask_run [of s n env] obtain em where
    "trace (final (MQTTTask n env s)) = trace s @ em" "lock_from Free em = Free"
    by (auto simp: task_run_def)
  then have m: "lock_from Free (new_events s (MQTTTask n env s)) = Free" by simp
  from PEKTask_lock [of n env s] obtain ep where
    "trace (final (PEKTask n env s)) = trace s @ ep" "lock_from Free ep = Free"
    by blast
  then have p: "lock_from Free (new_events s (PEKTask n env s)) = Free" by simp
  have "lock_of es = Free"
    if "non_returning e" and "new_events s (MQTTTask n env s) = es @ e # fs \<or>
         new_events s (PEKTask n env s) = es @ e # fs" for es e fs
    using that m p lock_free_before_exit [of es e fs]
    by (auto simp: lock_of_from)
  with m p show ?thesis
    by (simp add: lock_of_from) blast
qed

theorem console_lock_released_before_exit_witness:
  "non_returning AxpShutdown \<and>
   new_events pressed (PEKTask (Suc 0) long_press pressed) =
     [WritePekPressed False, AxpReadIRQ, AxpIsPEKLongtPressIRQ True, SemTake True,
      SerialPrintln ''Long press detected: Shutting down...'', SemGive, VTaskDelay 100]
     @ AxpShutdown # [] \<and>
   lock_of [WritePekPressed False, AxpReadIRQ, AxpIsPEKLongtPressIRQ True, SemTake True,
      SerialPrintln ''Long press detected: Shutting down...'', SemGive, VTaskDelay 100] = Free"
proof -
  have 1: "non_returning AxpShutdown" by (simp add: non_returning_def)
  note 2 = PEKTask_long_press_pressed
  from console_lock_released_before_exit [of pressed "Suc 0" long_press] 1 2
  have "lock_of [WritePekPressed False, AxpReadIRQ, AxpIsPEKLongtPressIRQ True, SemTake True,
      SerialPrintln ''Long press detected: Shutting down...'', SemGive, VTaskDelay 100] = Free"
    by blast
  with 1 2 show ?thesis by blast
qed


subsection \<open>Where the values of a record come from\<close>

lemma low_battery_sel [simp]:
  "random_source low_battery = random_source healthy"
  "batt_voltage low_battery = (\<lambda>_. 3700)"
  by (simp_all add: low_battery_def)

text \<open>
  C10. The three values of a record: \<open>soilTemp\<close> is the result of
  \<^verbatim>\<open>random(1000, 4500)\<close>, in hundredths: 1000 plus what the generator draws, modulo
  3500, so between 10.00 and 44.99; \<open>soilMoist\<close> is the result of
  \<^verbatim>\<open>random(0, 10000)\<close>: what the generator draws next, modulo 10000, so between 0.00
  and 99.99; both are the same in every environment with the same random source,
  whatever the chip, the network or the broker answer. The only reading taken is \<^verbatim>\<open>axp.getBattVoltage()\<close>, for
  \<open>batVolt\<close>. These three calls are all that precedes the publish call in the publish
  block, and the payload published is built from these three values.
\<close>

theorem telemetry_values_sources:
  "case sample env s of
     ((soilTemp, soilMoist, batVolt), s1) \<Rightarrow>
       soilTemp = 1000 + random_source env (trace s) mod 3500 \<and>
       soilMoist = random_source env (trace s @ [Random 1000 4500 soilTemp]) mod 10000 \<and>
       1000 \<le> soilTemp \<and> soilTemp < 4500 \<and> soilMoist < 10000 \<and>
       new_events s (Normal s1) =
         [Random 1000 4500 soilTemp, Random 0 10000 soilMoist, AxpGetBattVoltage batVolt] \<and>
       batVolt = batt_voltage env
                   (trace s @ [Random 1000 4500 soilTemp, Random 0 10000 soilMoist]) \<and>
       (\<forall>env'. random_source env' = random_source env \<longrightarrow>
          fst (fst (sample env' s)) = soilTemp \<and> fst (snd (fst (sample env' s))) = soilMoist) \<and>
       (\<exists>str rest.
          dataStr (bootCount s) soilTemp soilMoist batVolt = Some str \<and>
          new_events s (mqtt_pub env s) =
            [Random 1000 4500 soilTemp, Random 0 10000 soilMoist, AxpGetBattVoltage batVolt,
             MqttPublish mqttTopicPub str (mqtt_publish env (trace s1))] @ rest)"
proof -
  obtain t m v s1 where sm: "sample env s = ((t, m, v), s1)"
    by (metis prod_cases3 surj_pair)
  obtain str where str: "dataStr (bootCount s) t m v = Some str"
    using dataStr_Some by blast
  from sm have t: "t = 1000 + random_source env (trace s) mod 3500"
    and m: "m = random_source env (trace s @ [Random 1000 4500 t]) mod 10000"
    and v: "v = batt_voltage env (trace s @ [Random 1000 4500 t, Random 0 10000 m])"
    and s1: "s1 = emits [Random 1000 4500 t, Random 0 10000 m, AxpGetBattVoltage v] s"
    by (auto simp: sample_eq Let_def)
  have b: "1000 \<le> t \<and> t < 4500 \<and> m < 10000"
    unfolding t m by (simp add: less_diff_conv [symmetric])
  have ind: "fst (fst (sample env' s)) = t \<and> fst (snd (fst (sample env' s))) = m"
    if "random_source env' = random_source env" for env'
    using that t m by (simp add: sample_eq Let_def)
  have ne: "new_events s (Normal s1) = [Random 1000 4500 t, Random 0 10000 m, AxpGetBattVoltage v]"
    by (simp add: s1 new_events_def)
  have pub: "\<exists>rest. new_events s (mqtt_pub env s) =
            [Random 1000 4500 t, Random 0 10000 m, AxpGetBattVoltage v,
             MqttPublish mqttTopicPub str (mqtt_publish env (trace s1))] @ rest"
    unfolding mqtt_pub_eq [OF sm str]
    by (cases "mqtt_publish env (trace s1)") (simp_all add: s1 new_events_def sleep_events_def)
  show ?thesis
    unfolding sm prod.case
    using t m b ne v ind pub str by (intro conjI) blast+
qed


theorem telemetry_values_sources_witness:
  "random_source low_battery = random_source healthy \<and>
   fst (sample healthy boot7) = (2500, 5000, 4100) \<and>
   fst (fst (sample low_battery boot7)) = 2500 \<and>
   fst (snd (fst (sample low_battery boot7))) = 5000 \<and>
   fst (sample dry_soil boot7) = (1525, 525, 4100)"
proof -
  have d: "random_source dry_soil = (\<lambda>_. 525)" "batt_voltage dry_soil = (\<lambda>_. 4100)"
    by (simp_all add: dry_soil_def healthy_def)
  obtain t m v s1 where sd: "sample dry_soil boot7 = ((t, m, v), s1)"
    by (metis prod_cases3 surj_pair)
  from telemetry_values_sources [where env = dry_soil and s = boot7]
  have dry: "t = 1525 \<and> m = 525 \<and> v = 4100"
    unfolding sd by (simp add: d)
  have sm: "sample healthy boot7 = ((2500, 5000, 4100),
     emits [Random 1000 4500 2500, Random 0 10000 5000, AxpGetBattVoltage 4100] boot7)"
    by (rule sample_boot7) simp_all
  have r: "random_source low_battery = random_source healthy" by simp
  from telemetry_values_sources [where env = healthy and s = boot7] r
  have "fst (fst (sample low_battery boot7)) = 2500 \<and>
        fst (snd (fst (sample low_battery boot7))) = 5000"
    unfolding sm by simp
  with sm r sd dry show ?thesis by simp
qed

end
